theory Spec2Isabelle
  imports Main
begin

section \<open>Strings of the host language\<close>

text \<open>
  The validation engine (class \<open>GitValidation\<close>) works on JavaScript strings, which are
  sequences of UTF-16 code units. A \<^typ>\<open>char\<close> stands for one code unit in the range
  \<open>0x00 .. 0xFF\<close>, so every ASCII string is represented exactly. The character classes
  are the restrictions of the ECMAScript ones to that range: \<open>\s\<close> and \<open>trim()\<close> use the
  same set (tab, line feed, vertical tab, form feed, carriage return, space, no-break
  space); \<open>\w\<close> is \<open>[A-Za-z0-9_]\<close>; \<open>.\<close> excludes line feed and carriage return.
  \<open>toLowerCase\<close> is exact on the range. The result of \<open>toUpperCase\<close> can leave the
  range and can be longer than its argument (\<open>0xDF\<close> becomes the two code units
  \<open>SS\<close>, \<open>0xB5\<close> becomes \<open>0x039C\<close>, \<open>0xFF\<close> becomes \<open>0x0178\<close>), so it is a list of code
  units given as numbers.
\<close>

definition isSpace :: "char \<Rightarrow> bool" where
  "isSpace c = (c \<in> set [CHR 0x09, CHR 0x0A, CHR 0x0B, CHR 0x0C, CHR 0x0D, CHR 0x20, CHR 0xA0])"

definition inRange :: "nat \<Rightarrow> nat \<Rightarrow> char \<Rightarrow> bool" where
  "inRange lo hi c = (lo \<le> of_char c \<and> (of_char c :: nat) \<le> hi)"

definition isDigit :: "char \<Rightarrow> bool" where
  "isDigit c = inRange 48 57 c"

definition isAsciiUpper :: "char \<Rightarrow> bool" where
  "isAsciiUpper c = inRange 65 90 c"

definition isAsciiLower :: "char \<Rightarrow> bool" where
  "isAsciiLower c = inRange 97 122 c"

definition isWord :: "char \<Rightarrow> bool" where
  "isWord c = (isAsciiUpper c \<or> isAsciiLower c \<or> isDigit c \<or> c = CHR ''_'')"

definition isControl :: "char \<Rightarrow> bool" where
  "isControl c = (inRange 0 31 c \<or> c = CHR 0x7F)"

definition isLineTerminator :: "char \<Rightarrow> bool" where
  "isLineTerminator c = (c = CHR 0x0A \<or> c = CHR 0x0D)"

definition isUpperChar :: "char \<Rightarrow> bool" where
  "isUpperChar c = (isAsciiUpper c \<or> (inRange 192 222 c \<and> c \<noteq> CHR 0xD7))"

definition isLowerChar :: "char \<Rightarrow> bool" where
  "isLowerChar c = (isAsciiLower c \<or> (inRange 224 254 c \<and> c \<noteq> CHR 0xF7))"

definition lowerChar :: "char \<Rightarrow> char" where
  "lowerChar c = (if isUpperChar c then char_of (of_char c + (32::nat)) else c)"

definition upperChar :: "char \<Rightarrow> char" where
  "upperChar c = (if isLowerChar c then char_of (of_char c - (32::nat)) else c)"

definition toLowerCase :: "string \<Rightarrow> string" where
  "toLowerCase s = map lowerChar s"

text \<open>
  The canonical form under which a pattern with the \<open>i\<close> flag compares characters: the
  upper-case form of a code unit when that is one code unit (of the range), the code unit
  itself otherwise.
\<close>

definition canonicalize :: "string \<Rightarrow> string" where
  "canonicalize s = map upperChar s"

text \<open>\<open>s.toUpperCase()\<close>, and the code units of a string of the range.\<close>

definition upperUnits :: "char \<Rightarrow> nat list" where
  "upperUnits c =
     (if c = CHR 0xDF then [0x53, 0x53]
      else if c = CHR 0xB5 then [0x039C]
      else if c = CHR 0xFF then [0x0178]
      else [of_char (upperChar c)])"

definition toUpperCase :: "string \<Rightarrow> nat list" where
  "toUpperCase s = concat (map upperUnits s)"

definition codeUnits :: "string \<Rightarrow> nat list" where
  "codeUnits s = map of_char s"

definition trim :: "string \<Rightarrow> string" where
  "trim s = rev (dropWhile isSpace (rev (dropWhile isSpace s)))"

definition startsWith :: "string \<Rightarrow> string \<Rightarrow> bool" where
  "startsWith s p = (take (length p) s = p)"

definition endsWith :: "string \<Rightarrow> string \<Rightarrow> bool" where
  "endsWith s p = (length p \<le> length s \<and> drop (length s - length p) s = p)"

text \<open>\<open>s.includes(p)\<close> on strings: \<open>p\<close> occurs at some position of \<open>s\<close>.\<close>

fun includesStr :: "string \<Rightarrow> string \<Rightarrow> bool" where
  "includesStr [] p = (p = [])"
| "includesStr (c # cs) p = (startsWith (c # cs) p \<or> includesStr cs p)"

text \<open>\<open>xs.join(sep)\<close> on arrays of strings.\<close>

fun join :: "string \<Rightarrow> string list \<Rightarrow> string" where
  "join sep [] = []"
| "join sep [x] = x"
| "join sep (x # y # ys) = x @ sep @ join sep (y # ys)"

text \<open>
  \<open>s.split('\n')\<close>: the pieces between line feeds; never empty, \<open>''.split('\n')\<close> is
  \<open>['']\<close>.
\<close>

fun splitLines :: "string \<Rightarrow> string list" where
  "splitLines [] = [[]]"
| "splitLines (c # cs) =
     (if c = CHR 0x0A then [] # splitLines cs
      else (case splitLines cs of l # ls \<Rightarrow> (c # l) # ls | [] \<Rightarrow> [[c]]))"

text \<open>
  Decimal rendering of an integer, as a template literal prints a number that holds an
  integer below \<open>10^21\<close>.
\<close>

fun digitChar :: "nat \<Rightarrow> char" where
  "digitChar n = char_of (48 + n mod 10)"

function showNat :: "nat \<Rightarrow> string" where
  "showNat n = (if n < 10 then [digitChar n] else showNat (n div 10) @ [digitChar n])"
  by pat_completeness auto
termination
  by (relation "measure id") auto

definition showInt :: "int \<Rightarrow> string" where
  "showInt i = (if i < 0 then CHR ''-'' # showNat (nat (- i)) else showNat (nat i))"

section \<open>Regular expressions\<close>

text \<open>
  The patterns of the source are regular (no back-references, no look-around), so a
  pattern is a term of \<open>rexp\<close> over character classes and \<open>matches\<close> decides whether a
  whole string belongs to it, by Brzozowski derivatives. The anchoring of a pattern
  chooses the entry point: \<open>/^r$/\<close> is \<open>fullTest\<close>, \<open>/^r/\<close> is \<open>prefixTest\<close>, \<open>/r$/\<close> is
  \<open>suffixTest\<close> and an unanchored \<open>/r/\<close> is \<open>searchTest\<close>.
\<close>

datatype rexp =
    Zero
  | Eps
  | Atom "char \<Rightarrow> bool"
  | Alt rexp rexp
  | Seq rexp rexp
  | Star rexp

fun nullable :: "rexp \<Rightarrow> bool" where
  "nullable Zero = False"
| "nullable Eps = True"
| "nullable (Atom P) = False"
| "nullable (Alt r s) = (nullable r \<or> nullable s)"
| "nullable (Seq r s) = (nullable r \<and> nullable s)"
| "nullable (Star r) = True"

fun deriv :: "char \<Rightarrow> rexp \<Rightarrow> rexp" where
  "deriv c Zero = Zero"
| "deriv c Eps = Zero"
| "deriv c (Atom P) = (if P c then Eps else Zero)"
| "deriv c (Alt r s) = Alt (deriv c r) (deriv c s)"
| "deriv c (Seq r s) =
     (if nullable r then Alt (Seq (deriv c r) s) (deriv c s) else Seq (deriv c r) s)"
| "deriv c (Star r) = Seq (deriv c r) (Star r)"

fun matches :: "rexp \<Rightarrow> string \<Rightarrow> bool" where
  "matches r [] = nullable r"
| "matches r (c # cs) = matches (deriv c r) cs"

text \<open>The language of a pattern, the reference semantics of \<open>matches\<close>.\<close>

inductive_set star :: "string set \<Rightarrow> string set" for A :: "string set" where
  star_nil: "[] \<in> star A"
| star_app: "u \<in> A \<Longrightarrow> v \<in> star A \<Longrightarrow> u @ v \<in> star A"

fun lang :: "rexp \<Rightarrow> string set" where
  "lang Zero = {}"
| "lang Eps = {[]}"
| "lang (Atom P) = {[c] | c. P c}"
| "lang (Alt r s) = lang r \<union> lang s"
| "lang (Seq r s) = {u @ v | u v. u \<in> lang r \<and> v \<in> lang s}"
| "lang (Star r) = star (lang r)"

definition Chr :: "char \<Rightarrow> rexp" where
  "Chr c = Atom (\<lambda>x. x = c)"

text \<open>
  A literal character under the \<open>i\<close> flag: pattern and input character are compared
  after canonicalisation to upper case.
\<close>

definition ChrI :: "char \<Rightarrow> rexp" where
  "ChrI c = Atom (\<lambda>x. upperChar x = upperChar c)"

definition Str :: "string \<Rightarrow> rexp" where
  "Str s = foldr (\<lambda>c r. Seq (Chr c) r) s Eps"

definition StrI :: "string \<Rightarrow> rexp" where
  "StrI s = foldr (\<lambda>c r. Seq (ChrI c) r) s Eps"

definition Plus :: "rexp \<Rightarrow> rexp" where
  "Plus r = Seq r (Star r)"

definition Opt :: "rexp \<Rightarrow> rexp" where
  "Opt r = Alt r Eps"

definition Seqs :: "rexp list \<Rightarrow> rexp" where
  "Seqs rs = foldr Seq rs Eps"

definition anyChar :: rexp where
  "anyChar = Atom (\<lambda>x. True)"

definition fullTest :: "rexp \<Rightarrow> string \<Rightarrow> bool" where
  "fullTest r s = matches r s"

definition prefixTest :: "rexp \<Rightarrow> string \<Rightarrow> bool" where
  "prefixTest r s = matches (Seq r (Star anyChar)) s"

definition suffixTest :: "rexp \<Rightarrow> string \<Rightarrow> bool" where
  "suffixTest r s = matches (Seq (Star anyChar) r) s"

definition searchTest :: "rexp \<Rightarrow> string \<Rightarrow> bool" where
  "searchTest r s = matches (Seq (Star anyChar) (Seq r (Star anyChar))) s"

subsection \<open>Regular expression objects\<close>

text \<open>
  A pattern supplied by a caller is a \<open>RegExp\<close> object: its matcher (for a subject and a
  start index, the end index of the match that starts there, if there is one), the flags
  \<open>g\<close> and \<open>y\<close>, and the property \<open>lastIndex\<close>. \<open>re.test(s)\<close> searches from index 0, or
  from \<open>lastIndex\<close> when \<open>g\<close> or \<open>y\<close> is set, trying each later start index unless \<open>y\<close> is
  set; with \<open>g\<close> or \<open>y\<close> it then stores the end of the match in \<open>lastIndex\<close>, or 0 when
  there is no match. \<open>regExpTest\<close> returns the answer and the object after the call.
\<close>

record RegExp =
  matcher :: "string \<Rightarrow> nat \<Rightarrow> nat option"
  global :: bool
  sticky :: bool
  lastIndex :: nat

function execFrom :: "(string \<Rightarrow> nat \<Rightarrow> nat option) \<Rightarrow> bool \<Rightarrow> string \<Rightarrow> nat \<Rightarrow> nat option" where
  "execFrom m y s i =
     (if length s < i then None
      else case m s i of
        Some e \<Rightarrow> Some e
      | None \<Rightarrow> if y then None else execFrom m y s (i + 1))"
  by pat_completeness auto
termination
  by (relation "measure (\<lambda>(m, y, s, i). Suc (length s) - i)") auto

definition searchStart :: "RegExp \<Rightarrow> nat" where
  "searchStart re = (if global re \<or> sticky re then lastIndex re else 0)"

definition regExpTest :: "RegExp \<Rightarrow> string \<Rightarrow> bool \<times> RegExp" where
  "regExpTest re s =
     (let stateful = (global re \<or> sticky re)
      in case execFrom (matcher re) (sticky re) s (searchStart re) of
           None \<Rightarrow> (False, if stateful then re\<lparr>lastIndex := 0\<rparr> else re)
         | Some e \<Rightarrow> (True, if stateful then re\<lparr>lastIndex := e\<rparr> else re))"

text \<open>The matcher of a pattern that is one literal string, such as \<open>/feature/\<close>.\<close>

definition literalMatcher :: "string \<Rightarrow> string \<Rightarrow> nat \<Rightarrow> nat option" where
  "literalMatcher lit s i =
     (if take (length lit) (drop i s) = lit then Some (i + length lit) else None)"

section \<open>Validation results and options\<close>

record ValidationResult =
  valid :: bool
  error :: "string option"
  warnings :: "string list option"
  suggestions :: "string list option"

text \<open>
  An optional property of an options object is either missing, or present with a value
  that may still be \<open>undefined\<close>. The spread \<open>{ ...DEFAULTS, ...options }\<close> keeps the
  default only for a missing property.
\<close>

datatype 'a optprop = Absent | Present "'a option"

fun spread :: "'a option \<Rightarrow> 'a optprop \<Rightarrow> 'a option" where
  "spread d Absent = d"
| "spread d (Present v) = v"

text \<open>
  \<open>maxLength\<close> is a number; the model covers integer values. \<open>pattern\<close> is a regular
  expression object; \<open>pattern.test(trimmedName)\<close> can change its \<open>lastIndex\<close>, so a call
  of the validator returns, with its result, the options object as the call leaves it.
\<close>

record BranchValidationOptions =
  allowSlash :: "bool optprop"
  maxLength :: "int optprop"
  reservedNames :: "string list optprop"
  pattern :: "RegExp optprop"
  enforcePrefix :: "string list optprop"

definition noBranchOptions :: BranchValidationOptions where
  "noBranchOptions = \<lparr>allowSlash = Absent, maxLength = Absent, reservedNames = Absent,
     pattern = Absent, enforcePrefix = Absent\<rparr>"

record BranchOpts =
  optAllowSlash :: "bool option"
  optMaxLength :: "int option"
  optReservedNames :: "string list option"
  optPattern :: "RegExp option"
  optEnforcePrefix :: "string list option"

definition DEFAULT_BRANCH_OPTIONS :: BranchOpts where
  "DEFAULT_BRANCH_OPTIONS = \<lparr>optAllowSlash = Some True, optMaxLength = Some 250,
     optReservedNames =
       Some [''HEAD'', ''FETCH_HEAD'', ''ORIG_HEAD'', ''MERGE_HEAD'', ''CHERRY_PICK_HEAD''],
     optPattern = None, optEnforcePrefix = None\<rparr>"

definition mergeBranchOptions :: "BranchOpts \<Rightarrow> BranchValidationOptions \<Rightarrow> BranchOpts" where
  "mergeBranchOptions d options = \<lparr>
     optAllowSlash = spread (optAllowSlash d) (allowSlash options),
     optMaxLength = spread (optMaxLength d) (maxLength options),
     optReservedNames = spread (optReservedNames d) (reservedNames options),
     optPattern = spread (optPattern d) (pattern options),
     optEnforcePrefix = spread (optEnforcePrefix d) (enforcePrefix options)\<rparr>"

definition invalid :: "string \<Rightarrow> ValidationResult" where
  "invalid msg = \<lparr>valid = False, error = Some msg, warnings = None, suggestions = None\<rparr>"

section \<open>Branch names\<close>

text \<open>
  The character class of the forbidden special characters (tilde, caret, colon, question
  mark, asterisk, both square brackets, at sign, opening brace, backslash), shared by the
  validators and the sanitizer.
\<close>

definition isForbidden :: "char \<Rightarrow> bool" where
  "isForbidden c = (c \<in> set [CHR ''~'', CHR ''^'', CHR '':'', CHR ''?'', CHR ''*'',
     CHR ''['', CHR '']'', CHR ''@'', CHR ''{'', CHR 0x5C])"

definition specialCharsMessage :: "string \<Rightarrow> string" where
  "specialCharsMessage what =
     what @ '' name cannot contain special characters: ~ ^ : ? * [ ] @ { '' @ [CHR 0x5C]"

text \<open>
  One call \<open>validateBranchName(name, options)\<close>: its result, and the options object after
  the call. The merged \<open>opts.pattern\<close> is the object held by \<open>options.pattern\<close> (the defaults
  have none), so the state that \<open>test\<close> leaves in it is seen by the next call with the same
  options object; \<open>patternTested\<close> is the options object once the pattern check has run.
  No other check changes anything.
\<close>

definition patternTested :: "BranchOpts \<Rightarrow> string \<Rightarrow> BranchValidationOptions \<Rightarrow> BranchValidationOptions" where
  "patternTested opts trimmedName options =
     (case optPattern opts of
        Some re \<Rightarrow> options\<lparr>pattern := Present (Some (snd (regExpTest re trimmedName)))\<rparr>
      | None \<Rightarrow> options)"

definition validateBranchNameCall ::
  "string \<Rightarrow> BranchValidationOptions \<Rightarrow> ValidationResult \<times> BranchValidationOptions" where
  "validateBranchNameCall name options =
    (let opts = mergeBranchOptions DEFAULT_BRANCH_OPTIONS options in
     if name = [] \<or> length (trim name) = 0
     then (invalid ''Branch name cannot be empty'', options)
     else let trimmedName = trim name in
     if (case optMaxLength opts of
           Some m \<Rightarrow> m \<noteq> 0 \<and> int (length trimmedName) > m | None \<Rightarrow> False)
     then (invalid (''Branch name exceeds maximum length of ''
             @ showInt (the (optMaxLength opts)) @ '' characters''), options)
     else if (case optReservedNames opts of
           Some rs \<Rightarrow> toUpperCase trimmedName \<in> set (map codeUnits rs) | None \<Rightarrow> False)
     then (invalid ([CHR 0x27] @ trimmedName
             @ [CHR 0x27] @ '' is a reserved name and cannot be used as a branch name''), options)
     else if startsWith trimmedName ''.''
     then (invalid ''Branch name cannot start with a dot'', options)
     else if endsWith trimmedName ''.''
     then (invalid ''Branch name cannot end with a dot'', options)
     else if endsWith trimmedName ''.lock''
     then (invalid ''Branch name cannot end with .lock'', options)
     else if searchTest (Seq (Chr CHR ''.'') (Chr CHR ''.'')) trimmedName
     then (invalid ''Branch name cannot contain consecutive dots'', options)
     else if startsWith trimmedName ''-''
     then (invalid ''Branch name cannot start with a dash'', options)
     else if endsWith trimmedName ''/''
     then (invalid ''Branch name cannot end with a slash'', options)
     else if searchTest (Seq (Chr CHR ''/'') (Chr CHR ''/'')) trimmedName
     then (invalid ''Branch name cannot contain consecutive slashes'', options)
     else if searchTest (Atom isSpace) trimmedName
     then (invalid ''Branch name cannot contain spaces'', options)
     else if searchTest (Atom isControl) trimmedName
     then (invalid ''Branch name cannot contain control characters'', options)
     else if searchTest (Atom isForbidden) trimmedName
     then (invalid (specialCharsMessage ''Branch''), options)
     else if \<not> (optAllowSlash opts = Some True) \<and> includesStr trimmedName ''/''
     then (invalid ''Branch name cannot contain slashes'', options)
     else if (case optEnforcePrefix opts of
           Some ps \<Rightarrow> length ps > 0
             \<and> \<not> list_ex (\<lambda>prefix. startsWith trimmedName (prefix @ ''/'')) ps
         | None \<Rightarrow> False)
     then (\<lparr>valid = False,
           error = Some (''Branch name must start with one of: ''
             @ join '', '' (the (optEnforcePrefix opts))),
           warnings = None,
           suggestions = Some (map (\<lambda>p. p @ ''/'' @ trimmedName) (the (optEnforcePrefix opts)))\<rparr>,
          options)
     else if (case optPattern opts of
           Some re \<Rightarrow> \<not> fst (regExpTest re trimmedName) | None \<Rightarrow> False)
     then (invalid ''Branch name does not match the required pattern'',
           patternTested opts trimmedName options)
     else
       let suggestions0 =
             (if \<not> includesStr trimmedName ''/''
              then [''Consider using a prefix like feature/, bugfix/, or hotfix/ for better organization'']
              else []);
           warnings1 =
             (if length trimmedName < 3
              then [''Branch name is very short, consider using a more descriptive name'']
              else []);
           warnings2 = warnings1 @
             (if searchTest (Atom isAsciiUpper) trimmedName
              then [''Branch name contains uppercase letters, lowercase is recommended'']
              else []);
           warnings3 = warnings2 @
             (if searchTest (Chr CHR ''_'') trimmedName
              then [''Branch name contains underscores, consider using dashes instead'']
              else [])
       in (\<lparr>valid = True, error = None, warnings = Some warnings3,
            suggestions = Some suggestions0\<rparr>,
           patternTested opts trimmedName options))"

definition validateBranchName :: "string \<Rightarrow> BranchValidationOptions \<Rightarrow> ValidationResult" where
  "validateBranchName name options = fst (validateBranchNameCall name options)"

text \<open>
  An options object whose pattern keeps no state between calls: it has no pattern, or one
  with neither the \<open>g\<close> nor the \<open>y\<close> flag.
\<close>

definition statelessPattern :: "BranchValidationOptions \<Rightarrow> bool" where
  "statelessPattern options =
     (case spread None (pattern options) of
        Some re \<Rightarrow> \<not> global re \<and> \<not> sticky re
      | None \<Rightarrow> True)"

text \<open>Options with the pattern \<open>/feature/g\<close>, with the pattern \<open>/feature/\<close>.\<close>

definition featurePattern :: "bool \<Rightarrow> RegExp" where
  "featurePattern g = \<lparr>matcher = literalMatcher ''feature'', global = g, sticky = False,
     lastIndex = 0\<rparr>"

definition featureOptions :: "bool \<Rightarrow> BranchValidationOptions" where
  "featureOptions g = noBranchOptions\<lparr>pattern := Present (Some (featurePattern g))\<rparr>"

subsection \<open>The sanitizer\<close>

text \<open>
  \<open>s.replace(/[P]{n,}/g, rep)\<close> for a character class \<open>P\<close>: scanning from the left, each
  maximal run of class characters of length at least \<open>n\<close> is replaced by \<open>rep\<close>; shorter
  runs stay.
\<close>

function replaceRuns :: "nat \<Rightarrow> (char \<Rightarrow> bool) \<Rightarrow> string \<Rightarrow> string \<Rightarrow> string" where
  "replaceRuns n P rep [] = []"
| "replaceRuns n P rep (c # cs) =
     (if P c then
        (let run = takeWhile P (c # cs); rest = dropWhile P (c # cs)
         in (if n \<le> length run then rep else run) @ replaceRuns n P rep rest)
      else c # replaceRuns n P rep cs)"
  by pat_completeness auto
termination
  by (relation "measure (\<lambda>(n, P, rep, s). length s)")
     (auto simp: less_Suc_eq_le length_dropWhile_le)

definition isEdgeChar :: "char \<Rightarrow> bool" where
  "isEdgeChar c = (c = CHR ''-'' \<or> c = CHR ''.'' \<or> c = CHR ''/'')"

text \<open>
  The steps of the pipeline, in the order of the source. \<open>replace(/^[-./]+/, '')\<close> drops
  the leading run of edge characters, \<open>replace(/[-./]+$/, '')\<close> the trailing one, and
  \<open>substring(0, 250)\<close> keeps at most 250 code units.
\<close>

definition sanitizeBranchName :: "string \<Rightarrow> string" where
  "sanitizeBranchName name =
     take 250
       (rev (dropWhile isEdgeChar (rev
         (dropWhile isEdgeChar
           (replaceRuns 2 (\<lambda>c. c = CHR ''/'') ''/''
             (replaceRuns 2 (\<lambda>c. c = CHR ''.'') ''.''
               (filter (\<lambda>c. \<not> isForbidden c)
                 (replaceRuns 1 (\<lambda>c. c = CHR ''_'') ''-''
                   (replaceRuns 1 isSpace ''-''
                     (toLowerCase (trim name)))))))))))"


subsection \<open>The order of the checks\<close>

text \<open>
  The checks of \<open>validateBranchName\<close> as a list in the documented order: each rule has the
  condition under which the name (already trimmed) violates it, and the message reported
  for it. \<open>firstViolation\<close> is the earliest rule in that order that the name violates.
\<close>

record BranchRule =
  label :: string
  violatedBy :: "BranchOpts \<Rightarrow> string \<Rightarrow> bool"
  message :: "BranchOpts \<Rightarrow> string \<Rightarrow> string"

definition fixedRule :: "string \<Rightarrow> (string \<Rightarrow> bool) \<Rightarrow> string \<Rightarrow> BranchRule" where
  "fixedRule l bad msg = \<lparr>label = l, violatedBy = (\<lambda>opts. bad), message = (\<lambda>opts t. msg)\<rparr>"

definition branchRules :: "BranchRule list" where
  "branchRules =
    [ fixedRule ''empty'' (\<lambda>t. t = []) ''Branch name cannot be empty'',
      \<lparr>label = ''max length'',
        violatedBy = (\<lambda>opts t. case optMaxLength opts of
            Some m \<Rightarrow> m \<noteq> 0 \<and> m < int (length t) | None \<Rightarrow> False),
        message = (\<lambda>opts t. ''Branch name exceeds maximum length of ''
            @ showInt (the (optMaxLength opts)) @ '' characters'')\<rparr>,
      \<lparr>label = ''reserved name'',
        violatedBy = (\<lambda>opts t. case optReservedNames opts of
            Some rs \<Rightarrow> toUpperCase t \<in> set (map codeUnits rs) | None \<Rightarrow> False),
        message = (\<lambda>opts t. [CHR 0x27] @ t @ [CHR 0x27]
            @ '' is a reserved name and cannot be used as a branch name'')\<rparr>,
      fixedRule ''leading dot'' (\<lambda>t. startsWith t ''.'') ''Branch name cannot start with a dot'',
      fixedRule ''trailing dot'' (\<lambda>t. endsWith t ''.'') ''Branch name cannot end with a dot'',
      fixedRule ''.lock suffix'' (\<lambda>t. endsWith t ''.lock'') ''Branch name cannot end with .lock'',
      fixedRule ''consecutive dots'' (searchTest (Seq (Chr CHR ''.'') (Chr CHR ''.'')))
        ''Branch name cannot contain consecutive dots'',
      fixedRule ''leading dash'' (\<lambda>t. startsWith t ''-'') ''Branch name cannot start with a dash'',
      fixedRule ''trailing slash'' (\<lambda>t. endsWith t ''/'') ''Branch name cannot end with a slash'',
      fixedRule ''consecutive slashes'' (searchTest (Seq (Chr CHR ''/'') (Chr CHR ''/'')))
        ''Branch name cannot contain consecutive slashes'',
      fixedRule ''whitespace'' (searchTest (Atom isSpace)) ''Branch name cannot contain spaces'',
      fixedRule ''control characters'' (searchTest (Atom isControl))
        ''Branch name cannot contain control characters'',
      fixedRule ''forbidden special characters'' (searchTest (Atom isForbidden))
        (specialCharsMessage ''Branch''),
      \<lparr>label = ''allowSlash'',
        violatedBy = (\<lambda>opts t. optAllowSlash opts \<noteq> Some True \<and> includesStr t ''/''),
        message = (\<lambda>opts t. ''Branch name cannot contain slashes'')\<rparr>,
      \<lparr>label = ''enforcePrefix'',
        violatedBy = (\<lambda>opts t. case optEnforcePrefix opts of
            Some ps \<Rightarrow> length ps > 0
              \<and> \<not> list_ex (\<lambda>prefix. startsWith t (prefix @ ''/'')) ps
          | None \<Rightarrow> False),
        message = (\<lambda>opts t. ''Branch name must start with one of: ''
            @ join '', '' (the (optEnforcePrefix opts)))\<rparr>,
      \<lparr>label = ''pattern'',
        violatedBy = (\<lambda>opts t. case optPattern opts of
            Some re \<Rightarrow> \<not> fst (regExpTest re t) | None \<Rightarrow> False),
        message = (\<lambda>opts t. ''Branch name does not match the required pattern'')\<rparr> ]"

definition firstViolation :: "BranchOpts \<Rightarrow> string \<Rightarrow> BranchRule option" where
  "firstViolation opts t = List.find (\<lambda>r. violatedBy r opts t) branchRules"

text \<open>
  The rules as the specification words them. Three conditions differ from the ones above:
  rule 2 is violated when the trimmed length exceeds \<open>maxLength\<close>, rule 14 when
  \<open>allowSlash\<close> is false and the name contains a slash, rule 16 when the pattern is set
  and the trimmed name does not match it, that is, a search of the name from its start
  finds no match.
\<close>

definition documentedMaxLength :: BranchRule where
  "documentedMaxLength =
     \<lparr>label = ''max length'',
       violatedBy = (\<lambda>opts t. case optMaxLength opts of
           Some m \<Rightarrow> m < int (length t) | None \<Rightarrow> False),
       message = (\<lambda>opts t. ''Branch name exceeds maximum length of ''
           @ showInt (the (optMaxLength opts)) @ '' characters'')\<rparr>"

definition documentedAllowSlash :: BranchRule where
  "documentedAllowSlash =
     \<lparr>label = ''allowSlash'',
       violatedBy = (\<lambda>opts t. optAllowSlash opts = Some False \<and> includesStr t ''/''),
       message = (\<lambda>opts t. ''Branch name cannot contain slashes'')\<rparr>"

definition documentedPattern :: BranchRule where
  "documentedPattern =
     \<lparr>label = ''pattern'',
       violatedBy = (\<lambda>opts t. case optPattern opts of
           Some re \<Rightarrow> execFrom (matcher re) (sticky re) t 0 = None | None \<Rightarrow> False),
       message = (\<lambda>opts t. ''Branch name does not match the required pattern'')\<rparr>"

definition documentedRules :: "BranchRule list" where
  "documentedRules = branchRules
     [1 := documentedMaxLength, 13 := documentedAllowSlash, 15 := documentedPattern]"

definition documentedViolation :: "BranchOpts \<Rightarrow> string \<Rightarrow> BranchRule option" where
  "documentedViolation opts t = List.find (\<lambda>r. violatedBy r opts t) documentedRules"

text \<open>The pattern of the options, if there is one, searches from the start of the name.\<close>

definition patternAtStart :: "BranchOpts \<Rightarrow> bool" where
  "patternAtStart opts = (case optPattern opts of Some re \<Rightarrow> searchStart re = 0 | None \<Rightarrow> True)"

section \<open>Commit messages\<close>

record CommitMessageOptions =
  maxSubjectLength :: "int optprop"
  maxBodyLineLength :: "int optprop"
  requireType :: "bool optprop"
  requireScope :: "bool optprop"
  allowedTypes :: "string list optprop"
  allowedScopes :: "string list optprop"

definition noCommitOptions :: CommitMessageOptions where
  "noCommitOptions = \<lparr>maxSubjectLength = Absent, maxBodyLineLength = Absent,
     requireType = Absent, requireScope = Absent, allowedTypes = Absent,
     allowedScopes = Absent\<rparr>"

record CommitOpts =
  optMaxSubjectLength :: "int option"
  optMaxBodyLineLength :: "int option"
  optRequireType :: "bool option"
  optRequireScope :: "bool option"
  optAllowedTypes :: "string list option"
  optAllowedScopes :: "string list option"

definition DEFAULT_COMMIT_OPTIONS :: CommitOpts where
  "DEFAULT_COMMIT_OPTIONS = \<lparr>optMaxSubjectLength = Some 72, optMaxBodyLineLength = Some 100,
     optRequireType = Some False, optRequireScope = Some False,
     optAllowedTypes = Some [''feat'', ''fix'', ''docs'', ''style'', ''refactor'', ''perf'',
       ''test'', ''build'', ''ci'', ''chore'', ''revert''],
     optAllowedScopes = None\<rparr>"

definition mergeCommitOptions :: "CommitOpts \<Rightarrow> CommitMessageOptions \<Rightarrow> CommitOpts" where
  "mergeCommitOptions d options = \<lparr>
     optMaxSubjectLength = spread (optMaxSubjectLength d) (maxSubjectLength options),
     optMaxBodyLineLength = spread (optMaxBodyLineLength d) (maxBodyLineLength options),
     optRequireType = spread (optRequireType d) (requireType options),
     optRequireScope = spread (optRequireScope d) (requireScope options),
     optAllowedTypes = spread (optAllowedTypes d) (allowedTypes options),
     optAllowedScopes = spread (optAllowedScopes d) (allowedScopes options)\<rparr>"

text \<open>A string or \<open>undefined\<close> used as a condition: true unless missing or empty.\<close>

definition truthy :: "string option \<Rightarrow> bool" where
  "truthy s = (s \<noteq> None \<and> s \<noteq> Some [])"

subsection \<open>The subject grammar\<close>

text \<open>
  The subject pattern \<open>/^(\w+)(?:\(([^)]+)\))?(!)?:\s*(.+)$/\<close>, as a pattern and as the
  matcher that returns its four capture groups. The quantifiers are greedy and each has a
  single way to succeed up to the colon: the type is the longest run of word characters,
  the scope runs to the first closing parenthesis. After the colon \<open>\s*\<close> takes the longest
  run of white space that leaves a non-empty description, and \<open>.\<close> refuses line
  terminators.
\<close>

definition conventionalPattern :: rexp where
  "conventionalPattern = Seqs
     [ Plus (Atom isWord),
       Opt (Seqs [Chr CHR ''('', Plus (Atom (\<lambda>c. c \<noteq> CHR '')'')), Chr CHR '')'']),
       Opt (Chr CHR ''!''),
       Chr CHR '':'',
       Star (Atom isSpace),
       Plus (Atom (\<lambda>c. \<not> isLineTerminator c)) ]"

record ConventionalMatch =
  groupType :: string
  groupScope :: "string option"
  groupBreaking :: "string option"
  groupDescription :: string

definition matchScope :: "string \<Rightarrow> string option \<times> string" where
  "matchScope r =
     (case r of
        [] \<Rightarrow> (None, r)
      | c # r' \<Rightarrow>
          if c = CHR ''('' then
            (let sc = takeWhile (\<lambda>x. x \<noteq> CHR '')'') r';
                 after = dropWhile (\<lambda>x. x \<noteq> CHR '')'') r'
             in if sc \<noteq> [] \<and> after \<noteq> [] then (Some sc, tl after) else (None, r))
          else (None, r))"

definition matchBang :: "string \<Rightarrow> string option \<times> string" where
  "matchBang r =
     (case r of
        [] \<Rightarrow> (None, r)
      | c # r' \<Rightarrow> if c = CHR ''!'' then (Some ''!'', r') else (None, r))"

definition matchDescription :: "string \<Rightarrow> string option" where
  "matchDescription r =
     (let ws = takeWhile isSpace r; d = dropWhile isSpace r in
      if d \<noteq> [] then (if list_ex isLineTerminator d then None else Some d)
      else if ws = [] then None
      else if isLineTerminator (last ws) then None
      else Some [last ws])"

definition matchConventional :: "string \<Rightarrow> ConventionalMatch option" where
  "matchConventional subject =
     (let ty = takeWhile isWord subject; r1 = dropWhile isWord subject in
      if ty = [] then None
      else
        (let (sc, r2) = matchScope r1; (bang, r3) = matchBang r2 in
         case r3 of
           [] \<Rightarrow> None
         | c # r4 \<Rightarrow>
             if c = CHR '':'' then
               (case matchDescription r4 of
                  None \<Rightarrow> None
                | Some d \<Rightarrow> Some \<lparr>groupType = ty, groupScope = sc, groupBreaking = bang,
                    groupDescription = d\<rparr>)
             else None))"

subsection \<open>Validation\<close>

text \<open>
  The loop over the body lines, \<open>for (let i = 2; i < lines.length; i++)\<close>; the argument is
  the list of the lines from index \<open>i\<close> on.
\<close>

fun bodyLineWarnings :: "int option \<Rightarrow> nat \<Rightarrow> string list \<Rightarrow> string list" where
  "bodyLineWarnings maxLen i [] = []"
| "bodyLineWarnings maxLen i (l # ls) =
     (if (case maxLen of Some m \<Rightarrow> m \<noteq> 0 \<and> int (length l) > m | None \<Rightarrow> False)
      then [''Line '' @ showNat (i + 1) @ '' exceeds '' @ showInt (the maxLen) @ '' characters'']
      else [])
     @ bodyLineWarnings maxLen (i + 1) ls"

text \<open>The hard failures of the \<open>requireType\<close> block, if any.\<close>

definition requireTypeFailure ::
    "CommitOpts \<Rightarrow> string \<Rightarrow> ConventionalMatch option \<Rightarrow> ValidationResult option" where
  "requireTypeFailure opts subject match =
     (if optRequireType opts = Some True then
        (case match of
           None \<Rightarrow> Some \<lparr>valid = False,
             error = Some ''Commit message must follow Conventional Commits format: type(scope): description'',
             warnings = None,
             suggestions = Some [''Example: feat: '' @ subject, ''Example: fix(core): '' @ subject]\<rparr>
         | Some m \<Rightarrow>
             if (case optAllowedTypes opts of
                   Some ts \<Rightarrow> groupType m \<notin> set ts | None \<Rightarrow> False)
             then Some (invalid (''Invalid commit type: '' @ [CHR 0x27] @ groupType m @ [CHR 0x27]
                     @ ''. Allowed types: '' @ join '', '' (the (optAllowedTypes opts))))
             else if optRequireScope opts = Some True \<and> \<not> truthy (groupScope m)
             then Some (invalid ''Commit message must include a scope: type(scope): description'')
             else if truthy (groupScope m)
                  \<and> (case optAllowedScopes opts of
                        Some ss \<Rightarrow> the (groupScope m) \<notin> set ss | None \<Rightarrow> False)
             then Some (invalid (''Invalid commit scope: '' @ [CHR 0x27] @ the (groupScope m)
                     @ [CHR 0x27] @ ''. Allowed scopes: ''
                     @ join '', '' (the (optAllowedScopes opts))))
             else None)
      else None)"

definition validateCommitMessage :: "string \<Rightarrow> CommitMessageOptions \<Rightarrow> ValidationResult" where
  "validateCommitMessage msg options =
    (let opts = mergeCommitOptions DEFAULT_COMMIT_OPTIONS options in
     if msg = [] \<or> length (trim msg) = 0 then invalid ''Commit message cannot be empty''
     else let lines = splitLines msg; subject = trim (hd lines) in
     if length subject = 0 then invalid ''Commit subject line cannot be empty''
     else if (case optMaxSubjectLength opts of
                Some m \<Rightarrow> m \<noteq> 0 \<and> int (length subject) > m | None \<Rightarrow> False)
     then \<lparr>valid = False,
           error = Some (''Commit subject line exceeds '' @ showInt (the (optMaxSubjectLength opts))
             @ '' characters ('' @ showNat (length subject) @ '')''),
           warnings = None,
           suggestions = Some [''Consider: '' @ [CHR 0x22]
             @ take (nat (the (optMaxSubjectLength opts) - 3)) subject @ ''...'' @ [CHR 0x22]]\<rparr>
     else let match = matchConventional subject in
     case requireTypeFailure opts subject match of
       Some failure \<Rightarrow> failure
     | None \<Rightarrow>
        (let warnings1 =
               (if length lines > 1 then
                  (if length (trim (lines ! 1)) > 0
                   then [''The second line should be blank to separate subject from body'']
                   else [])
                  @ bodyLineWarnings (optMaxBodyLineLength opts) 2 (drop 2 lines)
                else []);
             warnings2 = warnings1 @
               (if endsWith subject ''.'' then [''Subject line should not end with a period'']
                else []);
             suggestions1 =
               (if \<not> prefixTest (Atom isAsciiUpper) subject \<and> match = None
                then [''Consider capitalizing the first letter of the subject''] else []);
             suggestions2 = suggestions1 @
               (if match = None \<and> length subject > 0
                then [''Consider using Conventional Commits format: type(scope): description'']
                else [])
         in \<lparr>valid = True, error = None, warnings = Some warnings2,
              suggestions = Some suggestions2\<rparr>))"

subsection \<open>Generating and parsing\<close>



text \<open>The footer test \<open>/^[\w-]+:\s|^[\w-]+\s#/\<close> of the parser.\<close>

definition isTokenChar :: "char \<Rightarrow> bool" where
  "isTokenChar c = (isWord c \<or> c = CHR ''-'')"

definition footerPattern :: rexp where
  "footerPattern = Alt
     (Seqs [Plus (Atom isTokenChar), Chr CHR '':'', Atom isSpace])
     (Seqs [Plus (Atom isTokenChar), Atom isSpace, Chr CHR ''#''])"

definition footerStart :: "string \<Rightarrow> bool" where
  "footerStart line = prefixTest footerPattern line"

text \<open>
  The loop \<open>for (let i = 2; i < lines.length; i++)\<close> of the parser, on the lines still to
  read, with the variables \<open>inFooter\<close>, \<open>bodyLines\<close> and \<open>footerLines\<close>.
\<close>

fun classifyLines ::
    "string list \<Rightarrow> bool \<Rightarrow> string list \<Rightarrow> string list \<Rightarrow> string list \<times> string list" where
  "classifyLines [] inFooter bodyLines footerLines = (bodyLines, footerLines)"
| "classifyLines (line # rest) inFooter bodyLines footerLines =
     (let inFooter' = (if footerStart line then True else inFooter) in
      if inFooter' then classifyLines rest inFooter' bodyLines (footerLines @ [line])
      else classifyLines rest inFooter' (bodyLines @ [line]) footerLines)"

record ParsedConventionalCommit =
  commitType :: string
  scope :: "string option"
  breaking :: bool
  description :: string
  body :: "string option"
  footer :: "string option"

definition parseConventionalCommit :: "string \<Rightarrow> ParsedConventionalCommit option" where
  "parseConventionalCommit msg =
     (let lines = splitLines msg; subject = hd lines in
      case matchConventional subject of
        None \<Rightarrow> None
      | Some m \<Rightarrow>
          (let (bodyLines, footerLines) =
                 (if length lines > 2 then classifyLines (drop 2 lines) False [] [] else ([], []))
           in Some \<lparr>commitType = groupType m,
                scope = groupScope m,
                breaking = (groupBreaking m = Some ''!''),
                description = groupDescription m,
                body = (if length bodyLines > 0
                        then Some (trim (join [CHR 0x0A] bodyLines)) else None),
                footer = (if length footerLines > 0
                          then Some (trim (join [CHR 0x0A] footerLines)) else None)\<rparr>))"

section \<open>The other validators\<close>

definition semverPattern :: rexp where
  "semverPattern = Seqs
     [ Opt (Chr CHR ''v''),
       Plus (Atom isDigit), Chr CHR ''.'', Plus (Atom isDigit), Chr CHR ''.'', Plus (Atom isDigit),
       Opt (Seqs [Chr CHR ''-'', Plus (Atom (\<lambda>c. isWord c \<or> c = CHR ''.''))]),
       Opt (Seqs [Chr CHR ''+'', Plus (Atom (\<lambda>c. isWord c \<or> c = CHR ''.''))]) ]"

definition validateTagName :: "string \<Rightarrow> ValidationResult" where
  "validateTagName name =
    (if name = [] \<or> length (trim name) = 0 then invalid ''Tag name cannot be empty''
     else let trimmedName = trim name in
     if searchTest (Atom isSpace) trimmedName then invalid ''Tag name cannot contain spaces''
     else if searchTest (Atom isForbidden) trimmedName then invalid (specialCharsMessage ''Tag'')
     else if startsWith trimmedName ''-'' then invalid ''Tag name cannot start with a dash''
     else if \<not> fullTest semverPattern trimmedName
     then \<lparr>valid = True, error = None, warnings = None,
           suggestions = Some [''Consider using semantic versioning format: v1.0.0'']\<rparr>
     else \<lparr>valid = True, error = None, warnings = None, suggestions = None\<rparr>)"

definition validateRemoteName :: "string \<Rightarrow> ValidationResult" where
  "validateRemoteName name =
    (if name = [] \<or> length (trim name) = 0 then invalid ''Remote name cannot be empty''
     else let trimmedName = trim name in
     if searchTest (Atom isSpace) trimmedName then invalid ''Remote name cannot contain spaces''
     else if searchTest (Atom (\<lambda>c. isForbidden c \<or> c = CHR ''/'')) trimmedName
     then invalid ''Remote name cannot contain special characters''
     else if toLowerCase trimmedName \<notin> set [''origin'', ''upstream'', ''fork'']
     then \<lparr>valid = True, error = None, warnings = None,
           suggestions = Some [''Common remote names: origin, upstream, fork'']\<rparr>
     else \<lparr>valid = True, error = None, warnings = None, suggestions = None\<rparr>)"

text \<open>
  The five URL patterns. The first four carry the \<open>i\<close> flag; \<open>filePattern\<close> does not.
  \<open>[^\s]\<close> is any character that is not white space. The colon of \<open>sshPattern1\<close> stands
  alone between two classes and has no other case, so it is matched as itself.
\<close>

definition notSpace :: rexp where
  "notSpace = Atom (\<lambda>c. \<not> isSpace c)"

definition httpsPattern :: rexp where
  "httpsPattern = Seqs [StrI ''http'', Opt (ChrI CHR ''s''), StrI ''://'', Plus notSpace, StrI ''.git'']"

definition sshPattern1 :: rexp where
  "sshPattern1 = Seqs [StrI ''git@'', Plus (Atom (\<lambda>c. \<not> isSpace c \<and> c \<noteq> CHR '':'')),
     Chr CHR '':'', Plus notSpace, StrI ''.git'']"

definition sshPattern2 :: rexp where
  "sshPattern2 = Seqs [StrI ''ssh://'', Plus notSpace, StrI ''.git'']"

definition gitPattern :: rexp where
  "gitPattern = Seqs [StrI ''git://'', Plus notSpace, StrI ''.git'']"

definition filePattern :: rexp where
  "filePattern = Seqs [Opt (Str ''file://''), Chr CHR ''/'', Plus notSpace]"

definition validateRemoteUrl :: "string \<Rightarrow> ValidationResult" where
  "validateRemoteUrl url =
    (if url = [] \<or> length (trim url) = 0 then invalid ''Remote URL cannot be empty''
     else let trimmedUrl = trim url;
              isValid = (fullTest httpsPattern trimmedUrl \<or> fullTest sshPattern1 trimmedUrl
                \<or> fullTest sshPattern2 trimmedUrl \<or> fullTest gitPattern trimmedUrl
                \<or> fullTest filePattern trimmedUrl)
     in
     if \<not> isValid
     then \<lparr>valid = False, error = Some ''Invalid remote URL format'', warnings = None,
           suggestions = Some [''HTTPS: https://github.com/user/repo.git'',
             ''SSH: git@github.com:user/repo.git'']\<rparr>
     else if fullTest gitPattern trimmedUrl
     then \<lparr>valid = True, error = None,
           warnings = Some [''Git protocol is unencrypted. Consider using HTTPS or SSH.''],
           suggestions = None\<rparr>
     else \<lparr>valid = True, error = None, warnings = None, suggestions = None\<rparr>)"

definition validateStashMessage :: "string \<Rightarrow> ValidationResult" where
  "validateStashMessage msg =
    (if msg = [] \<or> length (trim msg) = 0
     then \<lparr>valid = True, error = None, warnings = None,
           suggestions = Some [''Consider adding a descriptive message for your stash'']\<rparr>
     else let trimmedMessage = trim msg in
     if length trimmedMessage > 500
     then invalid ''Stash message is too long (max 500 characters)''
     else \<lparr>valid = True, error = None, warnings = None, suggestions = None\<rparr>)"

text \<open>
  The traversal test \<open>/(^|\/)\.\.($|\/)/\<close> has its anchors inside alternatives. Distributed
  over the two alternatives on each side it is the disjunction of \<open>/^\.\.$/\<close>,
  \<open>/^\.\.\//\<close>, \<open>/\/\.\.$/\<close> and \<open>/\/\.\.\//\<close>.
\<close>

definition traversalTest :: "string \<Rightarrow> bool" where
  "traversalTest p =
     (fullTest (Str ''..'') p \<or> prefixTest (Str ''../'') p
      \<or> suffixTest (Str ''/..'') p \<or> searchTest (Str ''/../'') p)"

definition validateFilePath :: "string \<Rightarrow> ValidationResult" where
  "validateFilePath filePath =
    (if filePath = [] \<or> length (trim filePath) = 0 then invalid ''File path cannot be empty''
     else let trimmedPath = trim filePath in
     if includesStr trimmedPath [CHR 0x00] then invalid ''File path cannot contain null bytes''
     else if traversalTest trimmedPath
     then invalid ''File path cannot contain parent directory references (..)''
     else \<lparr>valid = True, error = None, warnings = None, suggestions = None\<rparr>)"

section \<open>The documented forms of paths and remote URLs\<close>

text \<open>The segments of a path: the pieces between slashes.\<close>

fun pathSegments :: "string \<Rightarrow> string list" where
  "pathSegments [] = [[]]"
| "pathSegments (c # cs) =
     (if c = CHR ''/'' then [] # pathSegments cs
      else (case pathSegments cs of l # ls \<Rightarrow> (c # l) # ls | [] \<Rightarrow> [[c]]))"

text \<open>
  A URL with a given scheme that ends in \<open>.git\<close>, both compared without regard to case,
  with at least one character in between and no white space there.
\<close>

definition dotGitUrl :: "string \<Rightarrow> string \<Rightarrow> bool" where
  "dotGitUrl scheme t =
     (length scheme + 4 < length t
      \<and> canonicalize (take (length scheme) t) = canonicalize scheme
      \<and> list_all (\<lambda>c. \<not> isSpace c) (drop (length scheme) (take (length t - 4) t))
      \<and> canonicalize (drop (length t - 4) t) = canonicalize ''.git'')"

text \<open>
  The SSH shorthand \<open>git@host:path.git\<close>: the user is \<open>git\<close>, the host is what precedes the
  first colon, the path what follows it; both are non-empty and free of white space.
\<close>

definition sshShorthand :: "string \<Rightarrow> bool" where
  "sshShorthand t =
     (let m = drop 4 (take (length t - 4) t);
          host = takeWhile (\<lambda>c. c \<noteq> CHR '':'') m;
          rest = dropWhile (\<lambda>c. c \<noteq> CHR '':'') m
      in 8 < length t
         \<and> canonicalize (take 4 t) = canonicalize ''git@''
         \<and> canonicalize (drop (length t - 4) t) = canonicalize ''.git''
         \<and> list_all (\<lambda>c. \<not> isSpace c) m
         \<and> host \<noteq> [] \<and> 1 < length rest)"

text \<open>
  A local path: a slash followed by at least one character, none of them white space,
  after an optional \<open>file://\<close>.
\<close>

definition localPath :: "string \<Rightarrow> bool" where
  "localPath t =
     (let p = (if startsWith t ''file://'' then drop 7 t else t)
      in 1 < length p \<and> hd p = CHR ''/'' \<and> list_all (\<lambda>c. \<not> isSpace c) (tl p))"

definition acceptedUrl :: "string \<Rightarrow> bool" where
  "acceptedUrl t = (dotGitUrl ''http://'' t \<or> dotGitUrl ''https://'' t \<or> sshShorthand t
     \<or> dotGitUrl ''ssh://'' t \<or> dotGitUrl ''git://'' t \<or> localPath t)"

section \<open>The shape of a validation result\<close>

text \<open>
  A result is well formed when it carries an error exactly when it is not valid, and
  carries no warnings when it carries an error.
\<close>

definition wellFormed :: "ValidationResult \<Rightarrow> bool" where
  "wellFormed r = ((error r \<noteq> None) = (\<not> valid r) \<and> (error r = None \<or> warnings r = None))"

section \<open>Properties of trimming\<close>

lemma trim_Nil: "trim [] = []"
  by (simp add: trim_def)

lemma dropWhile_rev_dropWhile_rev:
  assumes "d = [] \<or> \<not> P (hd d)"
  shows "dropWhile P (rev (dropWhile P (rev d))) = rev (dropWhile P (rev d))"
proof (cases "rev (dropWhile P (rev d))")
  case Nil
  show ?thesis unfolding Nil by simp
next
  case (Cons c cs)
  have "d = rev (takeWhile P (rev d) @ dropWhile P (rev d))"
    by (simp only: takeWhile_dropWhile_id rev_rev_ident)
  then have "d = rev (dropWhile P (rev d)) @ rev (takeWhile P (rev d))"
    by (simp only: rev_append)
  with Cons have "d = (c # cs) @ rev (takeWhile P (rev d))" by simp
  then have "d \<noteq> []" "hd d = c" by (cases d; simp)+
  with assms have "\<not> P c" by simp
  then show ?thesis unfolding Cons by simp
qed

lemma dropWhile_trim: "dropWhile isSpace (trim s) = trim s"
proof -
  have "dropWhile isSpace s = [] \<or> \<not> isSpace (hd (dropWhile isSpace s))"
    using hd_dropWhile[of isSpace s] by blast
  then show ?thesis
    unfolding trim_def by (rule dropWhile_rev_dropWhile_rev)
qed

lemma trim_trim: "trim (trim s) = trim s"
proof -
  have "trim (trim s) = rev (dropWhile isSpace (rev (trim s)))"
    by (simp add: trim_def[of "trim s"] dropWhile_trim)
  also have "\<dots> = trim s"
    by (simp add: trim_def)
  finally show ?thesis .
qed

lemma empty_check: "(name = [] \<or> length (trim name) = 0) = (trim name = [])"
  by (auto simp: trim_Nil)

section \<open>Properties of the branch-name validator and the sanitizer\<close>

lemma validateBranchNameCall_trim:
  "validateBranchNameCall s options = validateBranchNameCall (trim s) options"
proof -
  have "(s = [] \<or> length (trim s) = 0) = (trim s = [] \<or> length (trim (trim s)) = 0)"
    by (auto simp: trim_trim trim_Nil)
  then show ?thesis
    unfolding validateBranchNameCall_def by (simp only: trim_trim)
qed

lemma regExpTest_stateless:
  "\<not> global re \<Longrightarrow> \<not> sticky re \<Longrightarrow> snd (regExpTest re s) = re"
  by (simp add: regExpTest_def Let_def split: option.splits)

lemma patternTested_stateless:
  assumes "statelessPattern options"
  shows "patternTested (mergeBranchOptions DEFAULT_BRANCH_OPTIONS options) t options = options"
proof (cases "spread None (pattern options)")
  case None
  then show ?thesis
    by (simp add: patternTested_def mergeBranchOptions_def DEFAULT_BRANCH_OPTIONS_def)
next
  case (Some re)
  then have p: "pattern options = Present (Some re)"
    by (cases "pattern options") simp_all
  from Some assms have "\<not> global re" "\<not> sticky re"
    by (simp_all add: statelessPattern_def)
  then have "snd (regExpTest re t) = re"
    by (rule regExpTest_stateless)
  moreover have "options\<lparr>pattern := Present (Some re)\<rparr> = options"
    using p by simp
  ultimately show ?thesis
    using Some
    by (simp add: patternTested_def mergeBranchOptions_def DEFAULT_BRANCH_OPTIONS_def)
qed

lemma validateBranchNameCall_stateless:
  assumes "statelessPattern options"
  shows "snd (validateBranchNameCall s options) = options"
  unfolding validateBranchNameCall_def Let_def
  by (simp add: patternTested_stateless[OF assms])

text \<open>
  C10. A call of \<open>validateBranchName\<close> on a name and a call on the name with its leading
  and trailing white space removed, made from the same state of the options object, give
  the same result and leave the options object in the same state, for every options
  value: all checks, including the length check, read the trimmed name only. When the
  options have no pattern, or a pattern with neither the \<open>g\<close> nor the \<open>y\<close> flag, a call
  leaves the options object as it was, so the two calls agree also when they are made one
  after the other.
\<close>

theorem validateBranchName_trim:
  "validateBranchName s options = validateBranchName (trim s) options
   \<and> snd (validateBranchNameCall s options) = snd (validateBranchNameCall (trim s) options)
   \<and> (statelessPattern options \<longrightarrow> snd (validateBranchNameCall s options) = options)"
  using validateBranchNameCall_trim[of s options] validateBranchNameCall_stateless[of options s]
  by (simp add: validateBranchName_def)

theorem validateBranchName_trim_witness:
  "validateBranchName ''  feature/add-login  '' (featureOptions False)
     = validateBranchName ''feature/add-login'' (featureOptions False)
   \<and> snd (validateBranchNameCall ''  feature/add-login  '' (featureOptions False))
     = featureOptions False
   \<and> valid (validateBranchName ''feature/add-login'' (featureOptions False))"
proof -
  have t: "trim ''  feature/add-login  '' = ''feature/add-login''"
    by code_simp
  have s: "statelessPattern (featureOptions False)"
    by code_simp
  have v: "valid (validateBranchName ''feature/add-login'' (featureOptions False))"
    by code_simp
  show ?thesis
    using validateBranchName_trim[of "''  feature/add-login  ''" "featureOptions False"] s v
    unfolding t by blast
qed

text \<open>
  C10 (as stated) fails for a pattern that has the \<open>g\<close> flag: two calls made one after the
  other with the same options object differ on a name and its trimmed form: the pattern \<open>/feature/g\<close>
  accepts the name \<open>feature/x\<close> given with a space on each side, which leaves \<open>lastIndex\<close>
  at 7, and the next call, on \<open>feature/x\<close>, searches from there and rejects it.
\<close>

theorem validateBranchName_successive_calls:
  "valid (validateBranchName '' feature/x '' (featureOptions True))
   \<and> map_option lastIndex
       (spread None (pattern (snd (validateBranchNameCall '' feature/x '' (featureOptions True)))))
     = Some 7
   \<and> error (validateBranchName ''feature/x''
       (snd (validateBranchNameCall '' feature/x '' (featureOptions True))))
     = Some ''Branch name does not match the required pattern''
   \<and> trim '' feature/x '' = ''feature/x''
   \<and> \<not> statelessPattern (featureOptions True)"
  by code_simp

lemma error_firstViolation:
  "error (validateBranchName name options) =
     map_option (\<lambda>r. message r (mergeBranchOptions DEFAULT_BRANCH_OPTIONS options) (trim name))
       (firstViolation (mergeBranchOptions DEFAULT_BRANCH_OPTIONS options) (trim name))"
  unfolding validateBranchName_def validateBranchNameCall_def firstViolation_def branchRules_def
    fixedRule_def invalid_def Let_def empty_check
  by simp

lemma valid_firstViolation:
  "valid (validateBranchName name options) =
     (firstViolation (mergeBranchOptions DEFAULT_BRANCH_OPTIONS options) (trim name) = None)"
  unfolding validateBranchName_def validateBranchNameCall_def firstViolation_def branchRules_def
    fixedRule_def invalid_def Let_def empty_check
  by simp

lemma patternAtStart_test:
  assumes "patternAtStart opts"
  shows "(case optPattern opts of
            Some re \<Rightarrow> execFrom (matcher re) (sticky re) t 0 = None | None \<Rightarrow> False)
       = (case optPattern opts of Some re \<Rightarrow> \<not> fst (regExpTest re t) | None \<Rightarrow> False)"
proof (cases "optPattern opts")
  case None
  then show ?thesis by simp
next
  case (Some re)
  with assms have "searchStart re = 0"
    by (simp add: patternAtStart_def)
  then have "fst (regExpTest re t) = (execFrom (matcher re) (sticky re) t 0 \<noteq> None)"
    by (cases "execFrom (matcher re) (sticky re) t 0") (simp_all add: regExpTest_def)
  with Some show ?thesis by simp
qed

lemma documentedViolation_message:
  assumes "optMaxLength opts \<noteq> Some 0" and "optAllowSlash opts \<noteq> None"
    and "patternAtStart opts"
  shows "map_option (\<lambda>r. message r opts t) (documentedViolation opts t)
       = map_option (\<lambda>r. message r opts t) (firstViolation opts t)"
proof -
  obtain b where b: "optAllowSlash opts = Some b"
    using assms(2) by auto
  have p: "(case optPattern opts of
              Some re \<Rightarrow> execFrom (matcher re) (sticky re) t 0 = None | None \<Rightarrow> False)
         = (case optPattern opts of Some re \<Rightarrow> \<not> fst (regExpTest re t) | None \<Rightarrow> False)"
    using assms(3) by (rule patternAtStart_test)
  show ?thesis
  proof (cases "optMaxLength opts")
    case None
    then show ?thesis
      unfolding documentedViolation_def documentedRules_def firstViolation_def branchRules_def
        fixedRule_def documentedMaxLength_def documentedAllowSlash_def documentedPattern_def
      using b by (simp add: eval_nat_numeral p)
  next
    case (Some m)
    with assms(1) have "m \<noteq> 0" by simp
    with Some show ?thesis
      unfolding documentedViolation_def documentedRules_def firstViolation_def branchRules_def
        fixedRule_def documentedMaxLength_def documentedAllowSlash_def documentedPattern_def
      using b by (simp add: eval_nat_numeral p)
  qed
qed

lemma documentedViolation_none:
  assumes "optMaxLength opts \<noteq> Some 0" and "optAllowSlash opts \<noteq> None"
    and "patternAtStart opts"
  shows "(documentedViolation opts t = None) = (firstViolation opts t = None)"
proof -
  obtain b where b: "optAllowSlash opts = Some b"
    using assms(2) by auto
  have p: "(case optPattern opts of
              Some re \<Rightarrow> execFrom (matcher re) (sticky re) t 0 = None | None \<Rightarrow> False)
         = (case optPattern opts of Some re \<Rightarrow> \<not> fst (regExpTest re t) | None \<Rightarrow> False)"
    using assms(3) by (rule patternAtStart_test)
  show ?thesis
  proof (cases "optMaxLength opts")
    case None
    then show ?thesis
      unfolding documentedViolation_def documentedRules_def firstViolation_def branchRules_def
        fixedRule_def documentedMaxLength_def documentedAllowSlash_def documentedPattern_def
      using b by (simp add: eval_nat_numeral p)
  next
    case (Some m)
    with assms(1) have "m \<noteq> 0" by simp
    with Some show ?thesis
      unfolding documentedViolation_def documentedRules_def firstViolation_def branchRules_def
        fixedRule_def documentedMaxLength_def documentedAllowSlash_def documentedPattern_def
      using b by (simp add: eval_nat_numeral p)
  qed
qed

text \<open>
  The reserved-name check compares the upper-case form of the whole name: a name with the
  code unit \<open>0xDF\<close>, whose upper-case form is \<open>SS\<close>, is rejected against the reserved name
  \<open>STRASSE\<close>.
\<close>

lemma validateBranchName_reserved_upper_case:
  "error (validateBranchName [CHR ''s'', CHR ''t'', CHR ''r'', CHR ''a'', CHR 0xDF, CHR ''e'']
      (noBranchOptions\<lparr>reservedNames := Present (Some [''STRASSE''])\<rparr>))
    = Some ([CHR 0x27, CHR ''s'', CHR ''t'', CHR ''r'', CHR ''a'', CHR 0xDF, CHR ''e'', CHR 0x27]
        @ '' is a reserved name and cannot be used as a branch name'')"
  by code_simp

text \<open>
  C5. The error reported by \<open>validateBranchName\<close> is the message of the first rule, in the
  order empty, max length, reserved name, leading dot, trailing dot, .lock suffix,
  consecutive dots, leading dash, trailing slash, consecutive slashes, whitespace, control
  characters, forbidden special characters, allowSlash, enforcePrefix, pattern, that the
  trimmed name violates; the name is valid exactly when it violates none. Here the
  max-length rule is violated only when \<open>maxLength\<close> is set and is not 0, the allowSlash
  rule whenever \<open>allowSlash\<close> is not true (false or undefined), and the pattern rule when
  \<open>pattern.test\<close> fails in the state the pattern object is in. When the merged
  \<open>maxLength\<close> is not 0, the merged \<open>allowSlash\<close> is not undefined and the pattern, if
  there is one, searches from the start of the name, the same holds of the rules as they
  are documented.
\<close>

theorem validateBranchName_first_violation:
  "error (validateBranchName name options) =
     map_option (\<lambda>r. message r (mergeBranchOptions DEFAULT_BRANCH_OPTIONS options) (trim name))
       (firstViolation (mergeBranchOptions DEFAULT_BRANCH_OPTIONS options) (trim name))
   \<and> valid (validateBranchName name options) =
     (firstViolation (mergeBranchOptions DEFAULT_BRANCH_OPTIONS options) (trim name) = None)
   \<and> (optMaxLength (mergeBranchOptions DEFAULT_BRANCH_OPTIONS options) \<noteq> Some 0
        \<and> optAllowSlash (mergeBranchOptions DEFAULT_BRANCH_OPTIONS options) \<noteq> None
        \<and> patternAtStart (mergeBranchOptions DEFAULT_BRANCH_OPTIONS options) \<longrightarrow>
      error (validateBranchName name options) =
        map_option (\<lambda>r. message r (mergeBranchOptions DEFAULT_BRANCH_OPTIONS options) (trim name))
          (documentedViolation (mergeBranchOptions DEFAULT_BRANCH_OPTIONS options) (trim name))
      \<and> valid (validateBranchName name options) =
        (documentedViolation (mergeBranchOptions DEFAULT_BRANCH_OPTIONS options) (trim name) = None))"
  by (simp add: error_firstViolation valid_firstViolation documentedViolation_message
      documentedViolation_none)

theorem validateBranchName_first_violation_witness:
  "error (validateBranchName ''-feature '' (featureOptions True))
     = Some ''Branch name cannot start with a dash''
   \<and> map_option label
        (firstViolation (mergeBranchOptions DEFAULT_BRANCH_OPTIONS (featureOptions True))
          (trim ''-feature ''))
     = Some ''leading dash''
   \<and> map_option label
        (documentedViolation (mergeBranchOptions DEFAULT_BRANCH_OPTIONS (featureOptions True))
          (trim ''-feature ''))
     = Some ''leading dash''
   \<and> error (validateBranchName ''-feature '' (featureOptions True))
     = map_option (\<lambda>r. message r (mergeBranchOptions DEFAULT_BRANCH_OPTIONS (featureOptions True))
              (trim ''-feature ''))
         (documentedViolation (mergeBranchOptions DEFAULT_BRANCH_OPTIONS (featureOptions True))
           (trim ''-feature ''))
   \<and> map label branchRules =
       [''empty'', ''max length'', ''reserved name'', ''leading dot'', ''trailing dot'',
        ''.lock suffix'', ''consecutive dots'', ''leading dash'', ''trailing slash'',
        ''consecutive slashes'', ''whitespace'', ''control characters'',
        ''forbidden special characters'', ''allowSlash'', ''enforcePrefix'', ''pattern'']"
proof -
  have a: "map_option (\<lambda>r. message r (mergeBranchOptions DEFAULT_BRANCH_OPTIONS (featureOptions True))
              (trim ''-feature ''))
            (firstViolation (mergeBranchOptions DEFAULT_BRANCH_OPTIONS (featureOptions True))
              (trim ''-feature ''))
           = Some ''Branch name cannot start with a dash''"
    by code_simp
  have b: "map_option label
        (firstViolation (mergeBranchOptions DEFAULT_BRANCH_OPTIONS (featureOptions True))
          (trim ''-feature ''))
     = Some ''leading dash''"
    by code_simp
  have b': "map_option label
        (documentedViolation (mergeBranchOptions DEFAULT_BRANCH_OPTIONS (featureOptions True))
          (trim ''-feature ''))
     = Some ''leading dash''"
    by code_simp
  have c: "map label branchRules =
       [''empty'', ''max length'', ''reserved name'', ''leading dot'', ''trailing dot'',
        ''.lock suffix'', ''consecutive dots'', ''leading dash'', ''trailing slash'',
        ''consecutive slashes'', ''whitespace'', ''control characters'',
        ''forbidden special characters'', ''allowSlash'', ''enforcePrefix'', ''pattern'']"
    by (simp add: branchRules_def fixedRule_def)
  have h: "optMaxLength (mergeBranchOptions DEFAULT_BRANCH_OPTIONS (featureOptions True)) \<noteq> Some 0
        \<and> optAllowSlash (mergeBranchOptions DEFAULT_BRANCH_OPTIONS (featureOptions True)) \<noteq> None
        \<and> patternAtStart (mergeBranchOptions DEFAULT_BRANCH_OPTIONS (featureOptions True))"
    by (simp add: mergeBranchOptions_def DEFAULT_BRANCH_OPTIONS_def noBranchOptions_def
        featureOptions_def featurePattern_def patternAtStart_def searchStart_def)
  note th = validateBranchName_first_violation[of "''-feature ''" "featureOptions True"]
  from th have e1: "error (validateBranchName ''-feature '' (featureOptions True))
     = map_option (\<lambda>r. message r (mergeBranchOptions DEFAULT_BRANCH_OPTIONS (featureOptions True))
              (trim ''-feature ''))
         (firstViolation (mergeBranchOptions DEFAULT_BRANCH_OPTIONS (featureOptions True))
           (trim ''-feature ''))"
    by (rule conjunct1)
  from th h have e2: "error (validateBranchName ''-feature '' (featureOptions True))
     = map_option (\<lambda>r. message r (mergeBranchOptions DEFAULT_BRANCH_OPTIONS (featureOptions True))
              (trim ''-feature ''))
         (documentedViolation (mergeBranchOptions DEFAULT_BRANCH_OPTIONS (featureOptions True))
           (trim ''-feature ''))"
    by blast
  from e1 a have "error (validateBranchName ''-feature '' (featureOptions True))
     = Some ''Branch name cannot start with a dash''"
    by (rule trans)
  with e2 b b' c show ?thesis by blast
qed

text \<open>
  C5 (as stated) fails: with the conditions as they are documented the first violated rule
  is not the one the validator reports. With \<open>maxLength\<close> 0 the name \<open>.abc\<close> exceeds the
  maximum length, the second documented rule, and the validator reports the leading dot.
  With \<open>allowSlash\<close> undefined the name \<open>a/b\<close> violates no documented rule, and the
  validator rejects it for its slash. With the pattern \<open>/feature/g\<close> left at \<open>lastIndex\<close> 7
  by an earlier call, the name \<open>feature/x\<close> matches the pattern and violates no documented
  rule, and the validator rejects it for the pattern.
\<close>

theorem documented_rules_differ:
  "map_option label
      (documentedViolation
        (mergeBranchOptions DEFAULT_BRANCH_OPTIONS (noBranchOptions\<lparr>maxLength := Present (Some 0)\<rparr>))
        (trim ''.abc''))
     = Some ''max length''
   \<and> error (validateBranchName ''.abc'' (noBranchOptions\<lparr>maxLength := Present (Some 0)\<rparr>))
     = Some ''Branch name cannot start with a dot''
   \<and> documentedViolation
        (mergeBranchOptions DEFAULT_BRANCH_OPTIONS (noBranchOptions\<lparr>allowSlash := Present None\<rparr>))
        (trim ''a/b'')
     = None
   \<and> error (validateBranchName ''a/b'' (noBranchOptions\<lparr>allowSlash := Present None\<rparr>))
     = Some ''Branch name cannot contain slashes''
   \<and> documentedViolation
        (mergeBranchOptions DEFAULT_BRANCH_OPTIONS
          (noBranchOptions\<lparr>pattern := Present (Some ((featurePattern True)\<lparr>lastIndex := 7\<rparr>))\<rparr>))
        (trim ''feature/x'')
     = None
   \<and> error (validateBranchName ''feature/x''
        (noBranchOptions\<lparr>pattern := Present (Some ((featurePattern True)\<lparr>lastIndex := 7\<rparr>))\<rparr>))
     = Some ''Branch name does not match the required pattern''"
  by code_simp

text \<open>
  C7. \<open>sanitizeBranchName("Feature Name")\<close> is \<open>"feature-name"\<close>, but
  \<open>sanitizeBranchName("fix: bug #123")\<close> is \<open>"fix-bug-#123"\<close>: the colon is deleted, the
  number sign is not in the deleted class and stays.
\<close>

theorem sanitizeBranchName_examples:
  "sanitizeBranchName ''Feature Name'' = ''feature-name''
   \<and> sanitizeBranchName ''fix: bug #123'' = ''fix-bug-#123''
   \<and> sanitizeBranchName ''fix: bug #123'' \<noteq> ''fix-bug-123''"
  by code_simp

text \<open>
  C1. The sanitizer does not always produce a name that the validator accepts: it leaves a
  \<open>.lock\<close> suffix in place.
\<close>

theorem sanitizeBranchName_lock_rejected:
  "sanitizeBranchName ''main.lock'' = ''main.lock''
   \<and> validateBranchName (sanitizeBranchName ''main.lock'') noBranchOptions
       = invalid ''Branch name cannot end with .lock''"
  by code_simp

lemma sanitizeBranchName_reserved_rejected:
  "sanitizeBranchName ''HEAD'' = ''head''
   \<and> \<not> valid (validateBranchName (sanitizeBranchName ''HEAD'') noBranchOptions)"
  by code_simp

lemma sanitizeBranchName_control_rejected:
  "sanitizeBranchName [CHR ''a'', CHR 0x01, CHR ''b''] = [CHR ''a'', CHR 0x01, CHR ''b'']
   \<and> validateBranchName (sanitizeBranchName [CHR ''a'', CHR 0x01, CHR ''b'']) noBranchOptions
       = invalid ''Branch name cannot contain control characters''"
  by code_simp

lemma sanitizeBranchName_truncated_rejected:
  "validateBranchName (sanitizeBranchName (replicate 249 CHR ''a'' @ ''.b'')) noBranchOptions
       = invalid ''Branch name cannot end with a dot''"
  by code_simp

text \<open>
  C4. The sanitizer is not idempotent on long inputs: truncation comes after the removal
  of trailing edge characters, so a truncated result can end in a dash, which a second
  pass removes.
\<close>

theorem sanitizeBranchName_not_idempotent:
  "sanitizeBranchName (replicate 249 CHR ''a'' @ ''-b'') = replicate 249 CHR ''a'' @ ''-''
   \<and> sanitizeBranchName (sanitizeBranchName (replicate 249 CHR ''a'' @ ''-b''))
       = replicate 249 CHR ''a''"
  by code_simp

section \<open>Properties of the validation results\<close>

lemma wellFormed_invalid: "wellFormed (invalid msg)"
  by (simp add: wellFormed_def invalid_def)

lemma wellFormed_failure:
  "wellFormed \<lparr>valid = False, error = Some e, warnings = None, suggestions = s\<rparr>"
  by (simp add: wellFormed_def)

lemma wellFormed_success:
  "wellFormed \<lparr>valid = True, error = None, warnings = w, suggestions = s\<rparr>"
  by (simp add: wellFormed_def)

lemma wellFormed_if:
  "wellFormed a \<Longrightarrow> wellFormed b \<Longrightarrow> wellFormed (if c then a else b)"
  by simp

lemmas wellFormed_intros =
  wellFormed_if wellFormed_invalid wellFormed_failure wellFormed_success

lemma wellFormed_fst_if:
  "wellFormed (fst a) \<Longrightarrow> wellFormed (fst b) \<Longrightarrow> wellFormed (fst (if c then a else b))"
  by simp

lemma wellFormed_fst: "wellFormed r \<Longrightarrow> wellFormed (fst (r, x))"
  by simp

lemma wellFormed_validateBranchName: "wellFormed (validateBranchName name options)"
  unfolding validateBranchName_def validateBranchNameCall_def Let_def
  by (intro wellFormed_fst_if wellFormed_fst wellFormed_intros)

lemma requireTypeFailure_wellFormed:
  assumes "requireTypeFailure opts subject match = Some r"
  shows "wellFormed r"
proof (cases "optRequireType opts = Some True")
  case False
  with assms show ?thesis by (simp add: requireTypeFailure_def)
next
  case True
  show ?thesis
  proof (cases match)
    case None
    with True assms have "r = \<lparr>valid = False,
        error = Some ''Commit message must follow Conventional Commits format: type(scope): description'',
        warnings = None,
        suggestions = Some [''Example: feat: '' @ subject, ''Example: fix(core): '' @ subject]\<rparr>"
      by (simp add: requireTypeFailure_def)
    then show ?thesis by (simp only: wellFormed_failure)
  next
    case (Some m)
    with True assms have "\<exists>msg. r = invalid msg"
      unfolding requireTypeFailure_def
      by (simp split: if_splits) blast+
    then show ?thesis by (auto simp only: wellFormed_invalid)
  qed
qed

lemma wellFormed_validateCommitMessage: "wellFormed (validateCommitMessage msg options)"
proof -
  have rt: "wellFormed (case requireTypeFailure opts subject match of
              None \<Rightarrow> \<lparr>valid = True, error = None, warnings = w, suggestions = g\<rparr>
            | Some failure \<Rightarrow> failure)" for opts subject match w g
    by (cases "requireTypeFailure opts subject match")
       (simp_all add: wellFormed_success requireTypeFailure_wellFormed)
  show ?thesis
    unfolding validateCommitMessage_def Let_def
    by (intro wellFormed_intros rt)
qed

lemma wellFormed_validateTagName: "wellFormed (validateTagName name)"
  unfolding validateTagName_def Let_def
  by (intro wellFormed_intros)

lemma wellFormed_validateRemoteName: "wellFormed (validateRemoteName name)"
  unfolding validateRemoteName_def Let_def
  by (intro wellFormed_intros)

lemma wellFormed_validateRemoteUrl: "wellFormed (validateRemoteUrl url)"
  unfolding validateRemoteUrl_def Let_def
  by (intro wellFormed_intros)

lemma wellFormed_validateStashMessage: "wellFormed (validateStashMessage msg)"
  unfolding validateStashMessage_def Let_def
  by (intro wellFormed_intros)

lemma wellFormed_validateFilePath: "wellFormed (validateFilePath p)"
  unfolding validateFilePath_def Let_def
  by (intro wellFormed_intros)

text \<open>
  C2 (amended). Every result of the seven validators carries an error exactly when it is
  not valid, and a result that carries an error carries no warnings. Suggestions are not
  excluded: several failures come with suggestions.
\<close>

theorem validation_results_wellFormed:
  "wellFormed (validateBranchName name branchOptions)
   \<and> wellFormed (validateCommitMessage msg commitOptions)
   \<and> wellFormed (validateTagName tag)
   \<and> wellFormed (validateRemoteName remote)
   \<and> wellFormed (validateRemoteUrl url)
   \<and> wellFormed (validateStashMessage stash)
   \<and> wellFormed (validateFilePath path)"
  by (simp only: wellFormed_validateBranchName wellFormed_validateCommitMessage
      wellFormed_validateTagName wellFormed_validateRemoteName wellFormed_validateRemoteUrl
      wellFormed_validateStashMessage wellFormed_validateFilePath simp_thms)

theorem validation_results_wellFormed_witness:
  "wellFormed (validateBranchName ''x'' (noBranchOptions\<lparr>enforcePrefix := Present (Some [''feature''])\<rparr>))
   \<and> wellFormed (validateCommitMessage ''feat: x'' noCommitOptions)
   \<and> wellFormed (validateTagName ''v1.0.0'')
   \<and> wellFormed (validateRemoteName ''origin'')
   \<and> wellFormed (validateRemoteUrl ''not-a-url'')
   \<and> wellFormed (validateStashMessage ''wip'')
   \<and> wellFormed (validateFilePath ''a/../b'')
   \<and> error (validateFilePath ''a/../b'')
       = Some ''File path cannot contain parent directory references (..)''"
proof -
  have "error (validateFilePath ''a/../b'')
       = Some ''File path cannot contain parent directory references (..)''"
    by code_simp
  with validation_results_wellFormed[of "''x''"
      "noBranchOptions\<lparr>enforcePrefix := Present (Some [''feature''])\<rparr>"
      "''feat: x''" noCommitOptions "''v1.0.0''" "''origin''" "''not-a-url''" "''wip''" "''a/../b''"]
  show ?thesis by blast
qed

text \<open>
  C2 (as stated) fails: a missing required prefix and a malformed remote URL are both
  reported with an error and with suggestions.
\<close>

theorem error_with_suggestions:
  "error (validateBranchName ''x'' (noBranchOptions\<lparr>enforcePrefix := Present (Some [''feature''])\<rparr>))
     = Some ''Branch name must start with one of: feature''
   \<and> suggestions (validateBranchName ''x'' (noBranchOptions\<lparr>enforcePrefix := Present (Some [''feature''])\<rparr>))
     = Some [''feature/x'']
   \<and> error (validateRemoteUrl ''not-a-url'') = Some ''Invalid remote URL format''
   \<and> suggestions (validateRemoteUrl ''not-a-url'')
     = Some [''HTTPS: https://github.com/user/repo.git'', ''SSH: git@github.com:user/repo.git'']"
  by code_simp

text \<open>
  The commit validator has two more: the missing conventional format under \<open>requireType\<close>
  and the subject line that is too long.
\<close>

lemma commit_errors_with_suggestions:
  "error (validateCommitMessage ''hello'' (noCommitOptions\<lparr>requireType := Present (Some True)\<rparr>))
     = Some ''Commit message must follow Conventional Commits format: type(scope): description''
   \<and> suggestions (validateCommitMessage ''hello'' (noCommitOptions\<lparr>requireType := Present (Some True)\<rparr>))
     = Some [''Example: feat: hello'', ''Example: fix(core): hello'']
   \<and> error (validateCommitMessage ''hello'' (noCommitOptions\<lparr>maxSubjectLength := Present (Some 3)\<rparr>))
     = Some ''Commit subject line exceeds 3 characters (5)''
   \<and> suggestions (validateCommitMessage ''hello'' (noCommitOptions\<lparr>maxSubjectLength := Present (Some 3)\<rparr>))
     = Some [''Consider: '' @ [CHR 0x22] @ ''...'' @ [CHR 0x22]]"
  by code_simp


section \<open>Properties of the commit parser\<close>




text \<open>
  C6. A line that begins with \<open>BREAKING CHANGE: \<close> does not start the footer: the token
  class \<open>[\w-]\<close> has no space, so neither alternative of the footer test matches, and
  the line is read as body.
\<close>

theorem breaking_change_not_footer:
  "\<not> footerStart ''BREAKING CHANGE: response format has changed''
   \<and> parseConventionalCommit
        ''feat!: change API\<newline>\<newline>BREAKING CHANGE: response format has changed''
      = Some \<lparr>commitType = ''feat'', scope = None, breaking = True,
          description = ''change API'',
          body = Some ''BREAKING CHANGE: response format has changed'', footer = None\<rparr>"
  by code_simp

lemma footerStart_examples:
  "footerStart ''Fixes #123'' \<and> footerStart ''BREAKING-CHANGE: x''
   \<and> footerStart ''Reviewed-by: Z'' \<and> \<not> footerStart ''plain text''"
  by code_simp


subsection \<open>Generating, then parsing\<close>




























section \<open>Correctness of the pattern matcher\<close>

lemma nullable_lang: "nullable r \<longleftrightarrow> [] \<in> lang r"
  by (induction r) (auto intro: star.star_nil)

lemma star_cons_split:
  assumes "w \<in> star A" and "w = c # cs"
  shows "\<exists>u v. cs = u @ v \<and> c # u \<in> A \<and> v \<in> star A"
  using assms
proof (induction arbitrary: c cs rule: star.induct)
  case star_nil
  then show ?case by simp
next
  case (star_app u v)
  show ?case
  proof (cases u)
    case Nil
    with star_app show ?thesis by simp
  next
    case (Cons a u')
    with star_app.prems have "a = c" and "cs = u' @ v" by simp_all
    with Cons star_app.hyps(1,2) show ?thesis by blast
  qed
qed

lemma deriv_lang: "cs \<in> lang (deriv c r) \<longleftrightarrow> c # cs \<in> lang r"
proof (induction r arbitrary: cs)
  case (Seq r s)
  show ?case
  proof
    assume "cs \<in> lang (deriv c (Seq r s))"
    then consider (left) u v where "cs = u @ v" "c # u \<in> lang r" "v \<in> lang s"
      | (right) "[] \<in> lang r" "c # cs \<in> lang s"
      using Seq by (auto simp: nullable_lang split: if_splits)
    then show "c # cs \<in> lang (Seq r s)"
    proof cases
      case left
      then have "c # cs = (c # u) @ v" by simp
      with left(2,3) have "\<exists>a b. c # cs = a @ b \<and> a \<in> lang r \<and> b \<in> lang s" by blast
      then show ?thesis by simp
    next
      case right
      then have "c # cs = [] @ (c # cs)" by simp
      with right have "\<exists>a b. c # cs = a @ b \<and> a \<in> lang r \<and> b \<in> lang s" by blast
      then show ?thesis by simp
    qed
  next
    assume "c # cs \<in> lang (Seq r s)"
    then obtain u v where uv: "c # cs = u @ v" "u \<in> lang r" "v \<in> lang s" by auto
    show "cs \<in> lang (deriv c (Seq r s))"
    proof (cases u)
      case Nil
      with uv Seq show ?thesis by (auto simp: nullable_lang)
    next
      case (Cons a u')
      with uv have "a = c" "cs = u' @ v" by simp_all
      with Cons uv Seq show ?thesis by (auto simp: nullable_lang)
    qed
  qed
next
  case (Star r)
  show ?case
  proof
    assume "cs \<in> lang (deriv c (Star r))"
    then obtain u v where "cs = u @ v" "c # u \<in> lang r" "v \<in> star (lang r)"
      using Star by auto
    then show "c # cs \<in> lang (Star r)"
      using star.star_app[of "c # u" "lang r" v] by simp
  next
    assume "c # cs \<in> lang (Star r)"
    then have "c # cs \<in> star (lang r)" by simp
    from star_cons_split[OF this refl] Star show "cs \<in> lang (deriv c (Star r))"
      by auto
  qed
qed auto

lemma matches_lang: "matches r s \<longleftrightarrow> s \<in> lang r"
  by (induction s arbitrary: r) (simp_all add: nullable_lang deriv_lang)

section \<open>The languages of the pattern constructors\<close>

lemma in_lang_Seq: "s \<in> lang (Seq r q) \<longleftrightarrow> (\<exists>u v. s = u @ v \<and> u \<in> lang r \<and> v \<in> lang q)"
  by auto

lemma star_atoms: "s \<in> star {[c] | c. P c} \<longleftrightarrow> list_all P s"
proof
  assume "s \<in> star {[c] | c. P c}"
  then show "list_all P s"
    by (induction rule: star.induct) auto
next
  assume "list_all P s"
  then show "s \<in> star {[c] | c. P c}"
  proof (induction s)
    case Nil
    show ?case by (rule star.star_nil)
  next
    case (Cons a s)
    then have "[a] \<in> {[c] | c. P c}" "s \<in> star {[c] | c. P c}" by auto
    then have "[a] @ s \<in> star {[c] | c. P c}" by (rule star.star_app)
    then show ?case by simp
  qed
qed

lemma in_lang_Star_Atom: "s \<in> lang (Star (Atom P)) \<longleftrightarrow> list_all P s"
  by (simp add: star_atoms)

lemma in_lang_Plus_Atom: "s \<in> lang (Plus (Atom P)) \<longleftrightarrow> s \<noteq> [] \<and> list_all P s"
proof
  assume "s \<in> lang (Plus (Atom P))"
  then obtain u v where "s = u @ v" "u \<in> lang (Atom P)" "v \<in> lang (Star (Atom P))"
    unfolding Plus_def in_lang_Seq by blast
  then show "s \<noteq> [] \<and> list_all P s"
    by (auto simp: star_atoms)
next
  assume a: "s \<noteq> [] \<and> list_all P s"
  then obtain c v where s: "s = c # v" by (cases s) auto
  with a have "[c] \<in> lang (Atom P)" "v \<in> lang (Star (Atom P))"
    by (simp_all add: star_atoms)
  moreover have "s = [c] @ v" using s by simp
  ultimately show "s \<in> lang (Plus (Atom P))"
    unfolding Plus_def in_lang_Seq by blast
qed

lemma in_lang_anyStar: "s \<in> lang (Star anyChar)"
  unfolding anyChar_def in_lang_Star_Atom by (simp add: list_all_iff)

lemma in_lang_Atom_Cons:
  "s \<in> lang (Seq (Atom P) r) \<longleftrightarrow> (\<exists>x v. s = x # v \<and> P x \<and> v \<in> lang r)"
proof
  assume "s \<in> lang (Seq (Atom P) r)"
  then obtain u v where "s = u @ v" "u \<in> lang (Atom P)" "v \<in> lang r"
    unfolding in_lang_Seq by blast
  then show "\<exists>x v. s = x # v \<and> P x \<and> v \<in> lang r" by auto
next
  assume "\<exists>x v. s = x # v \<and> P x \<and> v \<in> lang r"
  then obtain x v where "s = [x] @ v" "[x] \<in> lang (Atom P)" "v \<in> lang r" by auto
  then show "s \<in> lang (Seq (Atom P) r)"
    unfolding in_lang_Seq by blast
qed

lemma in_lang_Chr: "s \<in> lang (Chr c) \<longleftrightarrow> s = [c]"
  by (auto simp: Chr_def)

lemma in_lang_Opt: "s \<in> lang (Opt r) \<longleftrightarrow> s = [] \<or> s \<in> lang r"
  by (auto simp: Opt_def)

lemma in_lang_Str: "s \<in> lang (Str p) \<longleftrightarrow> s = p"
proof (induction p arbitrary: s)
  case Nil
  show ?case by (simp add: Str_def)
next
  case (Cons c p)
  have "Str (c # p) = Seq (Atom (\<lambda>x. x = c)) (Str p)"
    by (simp add: Str_def Chr_def)
  then have "s \<in> lang (Str (c # p)) \<longleftrightarrow> (\<exists>v. s = c # v \<and> v \<in> lang (Str p))"
    by (simp only: in_lang_Atom_Cons) blast
  with Cons show ?case by auto
qed

lemma in_lang_StrI: "s \<in> lang (StrI p) \<longleftrightarrow> canonicalize s = canonicalize p"
proof (induction p arbitrary: s)
  case Nil
  show ?case by (simp add: StrI_def canonicalize_def)
next
  case (Cons c p)
  have "StrI (c # p) = Seq (Atom (\<lambda>x. upperChar x = upperChar c)) (StrI p)"
    by (simp add: StrI_def ChrI_def)
  then have "s \<in> lang (StrI (c # p))
          \<longleftrightarrow> (\<exists>x v. s = x # v \<and> upperChar x = upperChar c \<and> v \<in> lang (StrI p))"
    by (simp only: in_lang_Atom_Cons)
  with Cons show ?case by (cases s) (auto simp: canonicalize_def)
qed

lemma in_lang_ChrI: "s \<in> lang (ChrI c) \<longleftrightarrow> canonicalize s = canonicalize [c]"
  by (cases s) (auto simp: ChrI_def canonicalize_def)

lemma in_lang_Seqs_Nil: "s \<in> lang (Seqs []) \<longleftrightarrow> s = []"
  by (simp add: Seqs_def)

lemma in_lang_Seqs_Cons:
  "s \<in> lang (Seqs (r # rs)) \<longleftrightarrow> (\<exists>u v. s = u @ v \<and> u \<in> lang r \<and> v \<in> lang (Seqs rs))"
  by (auto simp: Seqs_def)

lemma fullTest_iff: "fullTest r s \<longleftrightarrow> s \<in> lang r"
  by (simp add: fullTest_def matches_lang)

lemma prefixTest_iff: "prefixTest r s \<longleftrightarrow> (\<exists>u v. s = u @ v \<and> u \<in> lang r)"
  unfolding prefixTest_def matches_lang in_lang_Seq
  using in_lang_anyStar by blast

lemma suffixTest_iff: "suffixTest r s \<longleftrightarrow> (\<exists>u v. s = u @ v \<and> v \<in> lang r)"
  unfolding suffixTest_def matches_lang in_lang_Seq
  using in_lang_anyStar by blast

lemma searchTest_iff: "searchTest r s \<longleftrightarrow> (\<exists>u v w. s = u @ v @ w \<and> v \<in> lang r)"
proof
  assume "searchTest r s"
  then obtain u x where "s = u @ x" "x \<in> lang (Seq r (Star anyChar))"
    unfolding searchTest_def matches_lang in_lang_Seq[of s] by blast
  then obtain v w where "s = u @ v @ w" "v \<in> lang r"
    unfolding in_lang_Seq by blast
  then show "\<exists>u v w. s = u @ v @ w \<and> v \<in> lang r" by blast
next
  assume "\<exists>u v w. s = u @ v @ w \<and> v \<in> lang r"
  then obtain u v w where s: "s = u @ v @ w" and v: "v \<in> lang r" by blast
  from v have "v @ w \<in> lang (Seq r (Star anyChar))"
    unfolding in_lang_Seq using in_lang_anyStar by blast
  with s show "searchTest r s"
    unfolding searchTest_def matches_lang in_lang_Seq[of s] using in_lang_anyStar by blast
qed

lemma searchTest_Atom: "searchTest (Atom P) s \<longleftrightarrow> list_ex P s"
proof
  assume "searchTest (Atom P) s"
  then obtain u v w where "s = u @ v @ w" "v \<in> lang (Atom P)"
    unfolding searchTest_iff by blast
  then show "list_ex P s" by (auto simp: list_ex_iff)
next
  assume "list_ex P s"
  then obtain c where "c \<in> set s" "P c" by (auto simp: list_ex_iff)
  then obtain u w where "s = u @ [c] @ w" "[c] \<in> lang (Atom P)"
    by (auto simp: in_set_conv_decomp)
  then show "searchTest (Atom P) s"
    unfolding searchTest_iff by blast
qed

lemma startsWith_iff: "startsWith s p \<longleftrightarrow> (\<exists>v. s = p @ v)"
proof
  assume "startsWith s p"
  then have "s = p @ drop (length p) s"
    unfolding startsWith_def by (metis append_take_drop_id)
  then show "\<exists>v. s = p @ v" ..
next
  assume "\<exists>v. s = p @ v"
  then show "startsWith s p" by (auto simp: startsWith_def)
qed

lemma endsWith_iff: "endsWith s p \<longleftrightarrow> (\<exists>u. s = u @ p)"
proof
  assume "endsWith s p"
  then have "s = take (length s - length p) s @ p"
    unfolding endsWith_def by (metis append_take_drop_id)
  then show "\<exists>u. s = u @ p" ..
next
  assume "\<exists>u. s = u @ p"
  then show "endsWith s p" by (auto simp: endsWith_def)
qed

lemma includesStr_iff: "includesStr s p \<longleftrightarrow> (\<exists>u w. s = u @ p @ w)"
proof (induction s)
  case Nil
  show ?case by auto
next
  case (Cons c s)
  show ?case
  proof
    assume "includesStr (c # s) p"
    then consider "startsWith (c # s) p" | "includesStr s p" by auto
    then show "\<exists>u w. c # s = u @ p @ w"
    proof cases
      case 1
      then obtain v where "c # s = [] @ p @ v" by (auto simp: startsWith_iff)
      then show ?thesis by blast
    next
      case 2
      with Cons obtain u w where "s = u @ p @ w" by blast
      then have "c # s = (c # u) @ p @ w" by simp
      then show ?thesis by blast
    qed
  next
    assume "\<exists>u w. c # s = u @ p @ w"
    then obtain u w where uw: "c # s = u @ p @ w" by blast
    show "includesStr (c # s) p"
    proof (cases u)
      case Nil
      with uw have "startsWith (c # s) p" unfolding startsWith_iff by auto
      then show ?thesis by simp
    next
      case (Cons a u')
      with uw have "s = u' @ p @ w" by simp
      then have "includesStr s p" using Cons.IH by blast
      then show ?thesis by simp
    qed
  qed
qed

lemma searchTest_Str: "searchTest (Str p) s \<longleftrightarrow> includesStr s p"
  unfolding searchTest_iff includesStr_iff in_lang_Str by simp

lemma includesStr_single: "includesStr s [c] \<longleftrightarrow> c \<in> set s"
  unfolding includesStr_iff by (simp add: in_set_conv_decomp)

section \<open>Properties of the file-path validator\<close>

lemma pathSegments_nonempty: "pathSegments s \<noteq> []"
  by (induction s) (auto split: list.splits)

lemma pathSegments_no_slash: "CHR ''/'' \<notin> set a \<Longrightarrow> pathSegments a = [a]"
  by (induction a) auto

lemma pathSegments_append:
  "pathSegments (a @ CHR ''/'' # b) = pathSegments a @ pathSegments b"
proof (induction a)
  case Nil
  show ?case by simp
next
  case (Cons c a)
  obtain l ls where "pathSegments a = l # ls"
    using pathSegments_nonempty[of a] by (cases "pathSegments a") auto
  with Cons show ?case by simp
qed

lemma first_slash:
  assumes "CHR ''/'' \<in> set p"
  shows "\<exists>a b. p = a @ CHR ''/'' # b \<and> CHR ''/'' \<notin> set a"
  using assms by (metis split_list_first)

lemma segment_position:
  "x \<in> set (pathSegments p) \<Longrightarrow>
     p = x \<or> (\<exists>v. p = x @ CHR ''/'' # v) \<or> (\<exists>u. p = u @ CHR ''/'' # x)
       \<or> (\<exists>u v. p = u @ CHR ''/'' # x @ CHR ''/'' # v)"
proof (induction p rule: length_induct)
  case (1 p)
  show ?case
  proof (cases "CHR ''/'' \<in> set p")
    case False
    with "1.prems" show ?thesis by (simp add: pathSegments_no_slash)
  next
    case True
    then obtain a b where p: "p = a @ CHR ''/'' # b" and a: "CHR ''/'' \<notin> set a"
      using first_slash by blast
    then have segs: "pathSegments p = a # pathSegments b"
      by (simp add: pathSegments_append pathSegments_no_slash)
    with "1.prems" consider "x = a" | "x \<in> set (pathSegments b)" by auto
    then show ?thesis
    proof cases
      case 1
      with p show ?thesis by blast
    next
      case 2
      have "length b < length p" using p by simp
      with "1.IH" 2 have "b = x \<or> (\<exists>v. b = x @ CHR ''/'' # v) \<or> (\<exists>u. b = u @ CHR ''/'' # x)
          \<or> (\<exists>u v. b = u @ CHR ''/'' # x @ CHR ''/'' # v)"
        by blast
      then consider (eq) "b = x" | (pre) v where "b = x @ CHR ''/'' # v"
        | (suf) u where "b = u @ CHR ''/'' # x"
        | (mid) u v where "b = u @ CHR ''/'' # x @ CHR ''/'' # v"
        by blast
      then show ?thesis
      proof cases
        case eq
        with p have "p = a @ CHR ''/'' # x" by simp
        then show ?thesis by blast
      next
        case pre
        with p have "p = a @ CHR ''/'' # x @ CHR ''/'' # v" by simp
        then show ?thesis by blast
      next
        case suf
        with p have "p = (a @ CHR ''/'' # u) @ CHR ''/'' # x" by simp
        then show ?thesis by blast
      next
        case mid
        with p have "p = (a @ CHR ''/'' # u) @ CHR ''/'' # x @ CHR ''/'' # v" by simp
        then show ?thesis by blast
      qed
    qed
  qed
qed

lemma segment_of_position:
  assumes "CHR ''/'' \<notin> set x"
    and "p = x \<or> (\<exists>v. p = x @ CHR ''/'' # v) \<or> (\<exists>u. p = u @ CHR ''/'' # x)
       \<or> (\<exists>u v. p = u @ CHR ''/'' # x @ CHR ''/'' # v)"
  shows "x \<in> set (pathSegments p)"
proof -
  from assms(2) consider (eq) "p = x" | (pre) v where "p = x @ CHR ''/'' # v"
    | (suf) u where "p = u @ CHR ''/'' # x"
    | (mid) u v where "p = u @ CHR ''/'' # x @ CHR ''/'' # v"
    by blast
  then show ?thesis
  proof cases
    case eq
    with assms(1) show ?thesis by (simp add: pathSegments_no_slash)
  next
    case pre
    with assms(1) show ?thesis by (simp add: pathSegments_append pathSegments_no_slash)
  next
    case suf
    with assms(1) show ?thesis by (simp add: pathSegments_append pathSegments_no_slash)
  next
    case mid
    with assms(1) show ?thesis by (simp add: pathSegments_append pathSegments_no_slash)
  qed
qed

lemma traversalTest_positions:
  "traversalTest p \<longleftrightarrow>
     p = ''..'' \<or> (\<exists>v. p = ''..'' @ CHR ''/'' # v) \<or> (\<exists>u. p = u @ CHR ''/'' # ''..'')
       \<or> (\<exists>u v. p = u @ CHR ''/'' # ''..'' @ CHR ''/'' # v)"
proof -
  have a: "fullTest (Str ''..'') p \<longleftrightarrow> p = ''..''"
    by (simp add: fullTest_iff in_lang_Str)
  have b: "prefixTest (Str ''../'') p \<longleftrightarrow> (\<exists>v. p = ''..'' @ CHR ''/'' # v)"
    by (simp add: prefixTest_iff in_lang_Str)
  have c: "suffixTest (Str ''/..'') p \<longleftrightarrow> (\<exists>u. p = u @ CHR ''/'' # ''..'')"
    by (simp add: suffixTest_iff in_lang_Str)
  have d: "searchTest (Str ''/../'') p \<longleftrightarrow> (\<exists>u v. p = u @ CHR ''/'' # ''..'' @ CHR ''/'' # v)"
    by (simp add: searchTest_iff in_lang_Str)
  show ?thesis
    unfolding traversalTest_def a b c d ..
qed

lemma traversalTest_segments: "traversalTest p \<longleftrightarrow> ''..'' \<in> set (pathSegments p)"
proof
  assume "traversalTest p"
  then have "p = ''..'' \<or> (\<exists>v. p = ''..'' @ CHR ''/'' # v) \<or> (\<exists>u. p = u @ CHR ''/'' # ''..'')
       \<or> (\<exists>u v. p = u @ CHR ''/'' # ''..'' @ CHR ''/'' # v)"
    by (simp only: traversalTest_positions)
  moreover have "CHR ''/'' \<notin> set ''..''" by simp
  ultimately show "''..'' \<in> set (pathSegments p)"
    by (rule segment_of_position[rotated])
next
  assume "''..'' \<in> set (pathSegments p)"
  then show "traversalTest p"
    unfolding traversalTest_positions by (rule segment_position)
qed

text \<open>
  C9 (amended). \<open>validateFilePath\<close> rejects a path exactly when, after trimming, it is
  empty, contains a null byte, or has \<open>..\<close> as a whole segment.
\<close>

theorem validateFilePath_invalid_iff:
  "\<not> valid (validateFilePath p) \<longleftrightarrow>
     trim p = [] \<or> CHR 0x00 \<in> set (trim p) \<or> ''..'' \<in> set (pathSegments (trim p))"
  unfolding validateFilePath_def Let_def empty_check
  by (simp add: invalid_def includesStr_single traversalTest_segments)


theorem validateFilePath_invalid_iff_witness:
  "\<not> valid (validateFilePath ''a/../b'') \<and> \<not> valid (validateFilePath ''../x'')
   \<and> valid (validateFilePath ''foo..bar'')
   \<and> pathSegments (trim ''a/../b'') = [''a'', ''..'', ''b'']
   \<and> pathSegments (trim ''foo..bar'') = [''foo..bar'']"
proof -
  have a: "trim ''a/../b'' = ''a/../b''" "trim ''../x'' = ''../x''"
    "trim ''foo..bar'' = ''foo..bar''"
    by code_simp+
  have b: "pathSegments ''a/../b'' = [''a'', ''..'', ''b'']"
    "pathSegments ''../x'' = [''..'', ''x'']"
    "pathSegments ''foo..bar'' = [''foo..bar'']"
    by simp_all
  show ?thesis
    using validateFilePath_invalid_iff[of "''a/../b''"] validateFilePath_invalid_iff[of "''../x''"]
      validateFilePath_invalid_iff[of "''foo..bar''"]
    unfolding a b by simp
qed

text \<open>
  C9 (as stated) fails: the path \<open>" .."\<close> is rejected, although it is not blank, has no
  null byte, and its only segment is \<open>" .."\<close>, not \<open>".."\<close>; the traversal test reads the
  trimmed path.
\<close>

theorem validateFilePath_untrimmed_segment:
  "\<not> valid (validateFilePath '' ..'')
   \<and> '' ..'' \<noteq> [] \<and> trim '' ..'' \<noteq> [] \<and> CHR 0x00 \<notin> set '' ..''
   \<and> ''..'' \<notin> set (pathSegments '' ..'')"
  by code_simp

section \<open>Properties of the remote-URL validator\<close>

lemma canonicalize_append: "canonicalize (a @ b) = canonicalize a @ canonicalize b"
  by (simp add: canonicalize_def)

lemma canonicalize_length: "canonicalize a = canonicalize b \<Longrightarrow> length a = length b"
  unfolding canonicalize_def by (rule map_eq_imp_length_eq)

lemma canonicalize_take: "canonicalize (take n a) = take n (canonicalize a)"
  by (simp add: canonicalize_def take_map)

lemma canonicalize_drop: "canonicalize (drop n a) = drop n (canonicalize a)"
  by (simp add: canonicalize_def drop_map)

lemma canonicalize_Nil: "canonicalize a = [] \<longleftrightarrow> a = []"
  by (simp add: canonicalize_def)

lemma lang_Seqs_append:
  "s \<in> lang (Seqs (xs @ ys)) \<longleftrightarrow> (\<exists>u v. s = u @ v \<and> u \<in> lang (Seqs xs) \<and> v \<in> lang (Seqs ys))"
proof (induction xs arbitrary: s)
  case Nil
  show ?case by (simp add: in_lang_Seqs_Nil)
next
  case (Cons x xs)
  show ?case
  proof
    assume "s \<in> lang (Seqs ((x # xs) @ ys))"
    then obtain a w where s: "s = a @ w" and a: "a \<in> lang x" and "w \<in> lang (Seqs (xs @ ys))"
      unfolding append_Cons in_lang_Seqs_Cons by blast
    with Cons obtain u v where w: "w = u @ v" and u: "u \<in> lang (Seqs xs)"
      and v: "v \<in> lang (Seqs ys)" by blast
    from a u have "a @ u \<in> lang (Seqs (x # xs))"
      unfolding in_lang_Seqs_Cons by blast
    moreover have "s = (a @ u) @ v" using s w by simp
    ultimately show "\<exists>u v. s = u @ v \<and> u \<in> lang (Seqs (x # xs)) \<and> v \<in> lang (Seqs ys)"
      using v by blast
  next
    assume "\<exists>u v. s = u @ v \<and> u \<in> lang (Seqs (x # xs)) \<and> v \<in> lang (Seqs ys)"
    then obtain u v where s: "s = u @ v" and "u \<in> lang (Seqs (x # xs))"
      and v: "v \<in> lang (Seqs ys)" by blast
    then obtain a w where u: "u = a @ w" and a: "a \<in> lang x" and w: "w \<in> lang (Seqs xs)"
      unfolding in_lang_Seqs_Cons by blast
    from w v have "w @ v \<in> lang (Seqs (xs @ ys))" using Cons by blast
    moreover have "s = a @ (w @ v)" using s u by simp
    ultimately show "s \<in> lang (Seqs ((x # xs) @ ys))"
      unfolding append_Cons in_lang_Seqs_Cons using a by blast
  qed
qed

lemma in_lang_Seqs_single: "s \<in> lang (Seqs [r]) \<longleftrightarrow> s \<in> lang r"
  by (simp add: Seqs_def)

lemma in_lang_dotGit_tail:
  "s \<in> lang (Seqs [Plus notSpace, StrI ''.git'']) \<longleftrightarrow>
     (\<exists>m b. s = m @ b \<and> m \<noteq> [] \<and> list_all (\<lambda>c. \<not> isSpace c) m
        \<and> canonicalize b = canonicalize ''.git'')"
proof -
  have "s \<in> lang (Seqs [Plus notSpace, StrI ''.git'']) \<longleftrightarrow>
      (\<exists>m b. s = m @ b \<and> m \<in> lang (Plus notSpace) \<and> b \<in> lang (Seqs [StrI ''.git'']))"
    by (rule in_lang_Seqs_Cons)
  then show ?thesis
    by (simp only: in_lang_Seqs_single notSpace_def in_lang_Plus_Atom in_lang_StrI conj_assoc)
qed

lemma in_lang_dotGit:
  "s \<in> lang (Seqs (pre @ [Plus notSpace, StrI ''.git''])) \<longleftrightarrow>
     (\<exists>a m b. s = a @ m @ b \<and> a \<in> lang (Seqs pre) \<and> m \<noteq> []
        \<and> list_all (\<lambda>c. \<not> isSpace c) m \<and> canonicalize b = canonicalize ''.git'')"
proof
  assume "s \<in> lang (Seqs (pre @ [Plus notSpace, StrI ''.git'']))"
  then obtain a v where "s = a @ v" "a \<in> lang (Seqs pre)"
    "v \<in> lang (Seqs [Plus notSpace, StrI ''.git''])"
    unfolding lang_Seqs_append by blast
  moreover then obtain m b where "v = m @ b" "m \<noteq> []" "list_all (\<lambda>c. \<not> isSpace c) m"
    "canonicalize b = canonicalize ''.git''"
    unfolding in_lang_dotGit_tail by blast
  ultimately show "\<exists>a m b. s = a @ m @ b \<and> a \<in> lang (Seqs pre) \<and> m \<noteq> []
        \<and> list_all (\<lambda>c. \<not> isSpace c) m \<and> canonicalize b = canonicalize ''.git''"
    by blast
next
  assume "\<exists>a m b. s = a @ m @ b \<and> a \<in> lang (Seqs pre) \<and> m \<noteq> []
        \<and> list_all (\<lambda>c. \<not> isSpace c) m \<and> canonicalize b = canonicalize ''.git''"
  then obtain a m b where s: "s = a @ m @ b" and a: "a \<in> lang (Seqs pre)" and "m \<noteq> []"
    "list_all (\<lambda>c. \<not> isSpace c) m" "canonicalize b = canonicalize ''.git''"
    by blast
  then have "m @ b \<in> lang (Seqs [Plus notSpace, StrI ''.git''])"
    unfolding in_lang_dotGit_tail by blast
  with s a show "s \<in> lang (Seqs (pre @ [Plus notSpace, StrI ''.git'']))"
    unfolding lang_Seqs_append by blast
qed


lemma take_mid:
  assumes "n + 4 < length t"
  shows "t = take n t @ drop n (take (length t - 4) t) @ drop (length t - 4) t"
proof -
  have "n \<le> length t - 4" using assms by simp
  then have "take n t = take n (take (length t - 4) t)" by (simp add: min_def)
  then have "take n t @ drop n (take (length t - 4) t) = take (length t - 4) t"
    by (simp only: append_take_drop_id)
  then show ?thesis by (simp only: append_assoc[symmetric] append_take_drop_id)
qed

lemma dotGitUrl_iff:
  "dotGitUrl scheme t \<longleftrightarrow>
     (\<exists>a m b. t = a @ m @ b \<and> canonicalize a = canonicalize scheme \<and> m \<noteq> []
        \<and> list_all (\<lambda>c. \<not> isSpace c) m \<and> canonicalize b = canonicalize ''.git'')"
proof
  assume d: "dotGitUrl scheme t"
  define a where "a = take (length scheme) t"
  define m where "m = drop (length scheme) (take (length t - 4) t)"
  define b where "b = drop (length t - 4) t"
  from d have len: "length scheme + 4 < length t" by (simp add: dotGitUrl_def)
  have "t = a @ m @ b"
    unfolding a_def m_def b_def using len by (rule take_mid)
  moreover have "m \<noteq> []" unfolding m_def using len by simp
  moreover have "canonicalize a = canonicalize scheme"
    "list_all (\<lambda>c. \<not> isSpace c) m" "canonicalize b = canonicalize ''.git''"
    using d by (simp_all add: dotGitUrl_def a_def m_def b_def)
  ultimately show "\<exists>a m b. t = a @ m @ b \<and> canonicalize a = canonicalize scheme \<and> m \<noteq> []
        \<and> list_all (\<lambda>c. \<not> isSpace c) m \<and> canonicalize b = canonicalize ''.git''"
    by blast
next
  assume "\<exists>a m b. t = a @ m @ b \<and> canonicalize a = canonicalize scheme \<and> m \<noteq> []
        \<and> list_all (\<lambda>c. \<not> isSpace c) m \<and> canonicalize b = canonicalize ''.git''"
  then obtain a m b where t: "t = a @ m @ b" and a: "canonicalize a = canonicalize scheme"
    and m: "m \<noteq> []" "list_all (\<lambda>c. \<not> isSpace c) m"
    and b: "canonicalize b = canonicalize ''.git''" by blast
  have la: "length a = length scheme" using a by (rule canonicalize_length)
  have lb: "length b = 4" using canonicalize_length[OF b] by simp
  have lm: "length m > 0" using m(1) by simp
  have 1: "length scheme + 4 < length t" using la lb lm t by simp
  have 2: "take (length scheme) t = a" using la t by simp
  have 3: "length t - 4 = length a + length m" using lb t by simp
  have "take (length a + length m) (a @ m @ b) = a @ m" by simp
  then have 4: "take (length t - 4) t = a @ m" by (simp only: 3 t[symmetric])
  have 5: "drop (length scheme) (take (length t - 4) t) = m" unfolding 4 using la by simp
  have "drop (length a + length m) (a @ m @ b) = b" by simp
  then have 6: "drop (length t - 4) t = b" by (simp only: 3 t[symmetric])
  show "dotGitUrl scheme t"
    unfolding dotGitUrl_def 2 5 6 using 1 a m(2) b by blast
qed

lemma fullTest_dotGit:
  "fullTest (Seqs [StrI scheme, Plus notSpace, StrI ''.git'']) t \<longleftrightarrow> dotGitUrl scheme t"
proof -
  have "t \<in> lang (Seqs ([StrI scheme] @ [Plus notSpace, StrI ''.git''])) \<longleftrightarrow>
     (\<exists>a m b. t = a @ m @ b \<and> a \<in> lang (Seqs [StrI scheme]) \<and> m \<noteq> []
        \<and> list_all (\<lambda>c. \<not> isSpace c) m \<and> canonicalize b = canonicalize ''.git'')"
    by (rule in_lang_dotGit)
  then show ?thesis
    unfolding fullTest_iff dotGitUrl_iff in_lang_Seqs_single in_lang_StrI by simp
qed

lemma in_lang_Seqs_three:
  "s \<in> lang (Seqs [A, B, C]) \<longleftrightarrow>
     (\<exists>x y z. s = x @ y @ z \<and> x \<in> lang A \<and> y \<in> lang B \<and> z \<in> lang C)"
proof
  assume "s \<in> lang (Seqs [A, B, C])"
  then obtain x v where "s = x @ v" "x \<in> lang A" "v \<in> lang (Seqs [B, C])"
    unfolding in_lang_Seqs_Cons[of s] by blast
  moreover then obtain y z where "v = y @ z" "y \<in> lang B" "z \<in> lang (Seqs [C])"
    unfolding in_lang_Seqs_Cons[of v] by blast
  ultimately show "\<exists>x y z. s = x @ y @ z \<and> x \<in> lang A \<and> y \<in> lang B \<and> z \<in> lang C"
    unfolding in_lang_Seqs_single by blast
next
  assume "\<exists>x y z. s = x @ y @ z \<and> x \<in> lang A \<and> y \<in> lang B \<and> z \<in> lang C"
  then obtain x y z where s: "s = x @ y @ z" and x: "x \<in> lang A" and y: "y \<in> lang B"
    and z: "z \<in> lang C" by blast
  from z have "z \<in> lang (Seqs [C])" by (simp only: in_lang_Seqs_single)
  with y have "y @ z \<in> lang (Seqs [B, C])"
    unfolding in_lang_Seqs_Cons[of "y @ z"] by blast
  with x s show "s \<in> lang (Seqs [A, B, C])"
    unfolding in_lang_Seqs_Cons[of s] by blast
qed

lemma http_scheme:
  "a \<in> lang (Seqs [StrI ''http'', Opt (ChrI CHR ''s''), StrI ''://'']) \<longleftrightarrow>
     canonicalize a = canonicalize ''http://'' \<or> canonicalize a = canonicalize ''https://''"
proof
  assume "a \<in> lang (Seqs [StrI ''http'', Opt (ChrI CHR ''s''), StrI ''://''])"
  then obtain x y z where a: "a = x @ y @ z" and x: "canonicalize x = canonicalize ''http''"
    and y: "y = [] \<or> canonicalize y = canonicalize ''s''"
    and z: "canonicalize z = canonicalize ''://''"
    unfolding in_lang_Seqs_three in_lang_StrI in_lang_Opt in_lang_ChrI by blast
  from y show "canonicalize a = canonicalize ''http://'' \<or> canonicalize a = canonicalize ''https://''"
  proof
    assume "y = []"
    with a x z have "canonicalize a = canonicalize (''http'' @ ''://'')"
      by (simp only: canonicalize_append append_Nil)
    then show ?thesis by simp
  next
    assume "canonicalize y = canonicalize ''s''"
    with a x z have "canonicalize a = canonicalize (''http'' @ ''s'' @ ''://'')"
      by (simp only: canonicalize_append)
    then show ?thesis by simp
  qed
next
  assume "canonicalize a = canonicalize ''http://'' \<or> canonicalize a = canonicalize ''https://''"
  then show "a \<in> lang (Seqs [StrI ''http'', Opt (ChrI CHR ''s''), StrI ''://''])"
  proof
    assume u: "canonicalize a = canonicalize ''http://''"
    have "canonicalize (take 4 a) = canonicalize (take 4 ''http://'')"
      "canonicalize (drop 4 a) = canonicalize (drop 4 ''http://'')"
      by (simp_all only: canonicalize_take canonicalize_drop u)
    then have "canonicalize (take 4 a) = canonicalize ''http''"
      "canonicalize (drop 4 a) = canonicalize ''://''" by simp_all
    moreover have "a = take 4 a @ [] @ drop 4 a" by simp
    ultimately show ?thesis
      unfolding in_lang_Seqs_three in_lang_StrI in_lang_Opt in_lang_ChrI by blast
  next
    assume u: "canonicalize a = canonicalize ''https://''"
    have "canonicalize (take 4 a) = canonicalize (take 4 ''https://'')"
      "canonicalize (take 1 (drop 4 a)) = canonicalize (take 1 (drop 4 ''https://''))"
      "canonicalize (drop 5 a) = canonicalize (drop 5 ''https://'')"
      by (simp_all only: canonicalize_take canonicalize_drop u)
    then have "canonicalize (take 4 a) = canonicalize ''http''"
      "canonicalize (take 1 (drop 4 a)) = canonicalize ''s''"
      "canonicalize (drop 5 a) = canonicalize ''://''" by simp_all
    moreover have "a = take 4 a @ take 1 (drop 4 a) @ drop 5 a"
    proof -
      have "take 1 (drop 4 a) @ drop 1 (drop 4 a) = drop 4 a" by (rule append_take_drop_id)
      then have "take 1 (drop 4 a) @ drop 5 a = drop 4 a" by simp
      then have "take 4 a @ take 1 (drop 4 a) @ drop 5 a = take 4 a @ drop 4 a" by simp
      then show ?thesis by simp
    qed
    ultimately show ?thesis
      unfolding in_lang_Seqs_three in_lang_StrI in_lang_Opt in_lang_ChrI by blast
  qed
qed

lemma fullTest_httpsPattern:
  "fullTest httpsPattern t \<longleftrightarrow> dotGitUrl ''http://'' t \<or> dotGitUrl ''https://'' t"
proof -
  have e: "httpsPattern = Seqs ([StrI ''http'', Opt (ChrI CHR ''s''), StrI ''://'']
          @ [Plus notSpace, StrI ''.git''])"
    by (simp add: httpsPattern_def)
  have "fullTest httpsPattern t \<longleftrightarrow>
     (\<exists>a m b. t = a @ m @ b
        \<and> (canonicalize a = canonicalize ''http://'' \<or> canonicalize a = canonicalize ''https://'')
        \<and> m \<noteq> [] \<and> list_all (\<lambda>c. \<not> isSpace c) m \<and> canonicalize b = canonicalize ''.git'')"
    unfolding fullTest_iff e in_lang_dotGit http_scheme ..
  also have "\<dots> \<longleftrightarrow> dotGitUrl ''http://'' t \<or> dotGitUrl ''https://'' t"
    unfolding dotGitUrl_iff by blast
  finally show ?thesis .
qed

lemma fullTest_sshPattern2: "fullTest sshPattern2 t \<longleftrightarrow> dotGitUrl ''ssh://'' t"
  unfolding sshPattern2_def by (rule fullTest_dotGit)

lemma fullTest_gitPattern: "fullTest gitPattern t \<longleftrightarrow> dotGitUrl ''git://'' t"
  unfolding gitPattern_def by (rule fullTest_dotGit)

lemma colon_not_space: "\<not> isSpace CHR '':''"
  by code_simp

lemma sshShorthand_iff:
  "sshShorthand t \<longleftrightarrow>
     (\<exists>a h p b. t = a @ (h @ CHR '':'' # p) @ b \<and> canonicalize a = canonicalize ''git@''
        \<and> h \<noteq> [] \<and> list_all (\<lambda>c. \<not> isSpace c \<and> c \<noteq> CHR '':'') h
        \<and> p \<noteq> [] \<and> list_all (\<lambda>c. \<not> isSpace c) p \<and> canonicalize b = canonicalize ''.git'')"
proof
  assume d: "sshShorthand t"
  define a where "a = take 4 t"
  define m where "m = drop 4 (take (length t - 4) t)"
  define b where "b = drop (length t - 4) t"
  define h where "h = takeWhile (\<lambda>c. c \<noteq> CHR '':'') m"
  define r where "r = dropWhile (\<lambda>c. c \<noteq> CHR '':'') m"
  from d have len: "4 + 4 < length t"
    and ua: "canonicalize a = canonicalize ''git@''"
    and ub: "canonicalize b = canonicalize ''.git''"
    and sp: "list_all (\<lambda>c. \<not> isSpace c) m"
    and hn: "h \<noteq> []" and rl: "1 < length r"
    by (simp_all add: sshShorthand_def Let_def a_def m_def b_def h_def r_def)
  have t: "t = a @ m @ b"
    unfolding a_def m_def b_def using len by (rule take_mid)
  from rl obtain c p where r: "r = c # p" and pn: "p \<noteq> []"
    by (cases r) auto
  have "r \<noteq> []" using r by simp
  then have "\<not> (hd r \<noteq> CHR '':'')"
    unfolding r_def by (rule hd_dropWhile)
  with r have c: "c = CHR '':''" by simp
  have "takeWhile (\<lambda>c. c \<noteq> CHR '':'') m @ dropWhile (\<lambda>c. c \<noteq> CHR '':'') m = m"
    by (rule takeWhile_dropWhile_id)
  then have "h @ r = m" by (simp only: h_def r_def)
  then have m: "m = h @ CHR '':'' # p" using r c by simp
  have "\<forall>x\<in>set h. x \<noteq> CHR '':''"
    unfolding h_def by (auto dest: set_takeWhileD)
  with sp m have "list_all (\<lambda>c. \<not> isSpace c \<and> c \<noteq> CHR '':'') h"
    "list_all (\<lambda>c. \<not> isSpace c) p"
    by (auto simp: list_all_iff)
  with t m ua ub hn pn show "\<exists>a h p b. t = a @ (h @ CHR '':'' # p) @ b
        \<and> canonicalize a = canonicalize ''git@''
        \<and> h \<noteq> [] \<and> list_all (\<lambda>c. \<not> isSpace c \<and> c \<noteq> CHR '':'') h
        \<and> p \<noteq> [] \<and> list_all (\<lambda>c. \<not> isSpace c) p \<and> canonicalize b = canonicalize ''.git''"
    by blast
next
  assume "\<exists>a h p b. t = a @ (h @ CHR '':'' # p) @ b \<and> canonicalize a = canonicalize ''git@''
        \<and> h \<noteq> [] \<and> list_all (\<lambda>c. \<not> isSpace c \<and> c \<noteq> CHR '':'') h
        \<and> p \<noteq> [] \<and> list_all (\<lambda>c. \<not> isSpace c) p \<and> canonicalize b = canonicalize ''.git''"
  then obtain a h p b where t0: "t = a @ (h @ CHR '':'' # p) @ b"
    and a: "canonicalize a = canonicalize ''git@''"
    and h: "h \<noteq> []" "list_all (\<lambda>c. \<not> isSpace c \<and> c \<noteq> CHR '':'') h"
    and p: "p \<noteq> []" "list_all (\<lambda>c. \<not> isSpace c) p"
    and b: "canonicalize b = canonicalize ''.git''" by blast
  define m where "m = h @ CHR '':'' # p"
  have t: "t = a @ m @ b" using t0 m_def by simp
  have la: "length a = 4" using canonicalize_length[OF a] by simp
  have lb: "length b = 4" using canonicalize_length[OF b] by simp
  have lm: "length m > 0" by (simp add: m_def)
  have 1: "8 < length t" using la lb lm t by simp
  have 2: "take 4 t = a" using la t by simp
  have 3: "length t - 4 = length a + length m" using lb t by simp
  have "take (length a + length m) (a @ m @ b) = a @ m" by simp
  then have 4: "take (length t - 4) t = a @ m" by (simp only: 3 t[symmetric])
  have 5: "drop 4 (take (length t - 4) t) = m" unfolding 4 using la by simp
  have "drop (length a + length m) (a @ m @ b) = b" by simp
  then have 6: "drop (length t - 4) t = b" by (simp only: 3 t[symmetric])
  have nc: "\<forall>x\<in>set h. x \<noteq> CHR '':''" using h(2) by (simp add: list_all_iff)
  have 7: "takeWhile (\<lambda>c. c \<noteq> CHR '':'') m = h"
    unfolding m_def using nc by (simp add: takeWhile_append2)
  have 8: "dropWhile (\<lambda>c. c \<noteq> CHR '':'') m = CHR '':'' # p"
    unfolding m_def using nc by (simp add: dropWhile_append2)
  have 9: "list_all (\<lambda>c. \<not> isSpace c) m"
    unfolding m_def using h(2) p(2) colon_not_space by (auto simp: list_all_iff)
  show "sshShorthand t"
    unfolding sshShorthand_def Let_def 2 5 6 7 8 using 1 a b 9 h(1) p(1) by simp
qed

lemma fullTest_sshPattern1: "fullTest sshPattern1 t \<longleftrightarrow> sshShorthand t"
proof -
  have e: "sshPattern1 = Seqs ([StrI ''git@'', Plus (Atom (\<lambda>c. \<not> isSpace c \<and> c \<noteq> CHR '':'')),
     Chr CHR '':''] @ [Plus notSpace, StrI ''.git''])"
    by (simp add: sshPattern1_def)
  have "fullTest sshPattern1 t \<longleftrightarrow>
     (\<exists>pre p b. t = pre @ p @ b
        \<and> (\<exists>a h c. pre = a @ h @ c \<and> canonicalize a = canonicalize ''git@''
              \<and> (h \<noteq> [] \<and> list_all (\<lambda>c. \<not> isSpace c \<and> c \<noteq> CHR '':'') h) \<and> c = [CHR '':''])
        \<and> p \<noteq> [] \<and> list_all (\<lambda>c. \<not> isSpace c) p \<and> canonicalize b = canonicalize ''.git'')"
    unfolding fullTest_iff e in_lang_dotGit in_lang_Seqs_three in_lang_StrI in_lang_Plus_Atom
        in_lang_Chr ..
  also have "\<dots> \<longleftrightarrow>
     (\<exists>a h p b. t = a @ (h @ CHR '':'' # p) @ b \<and> canonicalize a = canonicalize ''git@''
        \<and> h \<noteq> [] \<and> list_all (\<lambda>c. \<not> isSpace c \<and> c \<noteq> CHR '':'') h
        \<and> p \<noteq> [] \<and> list_all (\<lambda>c. \<not> isSpace c) p \<and> canonicalize b = canonicalize ''.git'')"
  proof
    assume "\<exists>pre p b. t = pre @ p @ b
        \<and> (\<exists>a h c. pre = a @ h @ c \<and> canonicalize a = canonicalize ''git@''
              \<and> (h \<noteq> [] \<and> list_all (\<lambda>c. \<not> isSpace c \<and> c \<noteq> CHR '':'') h) \<and> c = [CHR '':''])
        \<and> p \<noteq> [] \<and> list_all (\<lambda>c. \<not> isSpace c) p \<and> canonicalize b = canonicalize ''.git''"
    then obtain a h p b where "t = (a @ h @ [CHR '':'']) @ p @ b"
      "canonicalize a = canonicalize ''git@''" "h \<noteq> []"
      "list_all (\<lambda>c. \<not> isSpace c \<and> c \<noteq> CHR '':'') h" "p \<noteq> []"
      "list_all (\<lambda>c. \<not> isSpace c) p" "canonicalize b = canonicalize ''.git''"
      by blast
    moreover then have "t = a @ (h @ CHR '':'' # p) @ b" by simp
    ultimately show "\<exists>a h p b. t = a @ (h @ CHR '':'' # p) @ b
        \<and> canonicalize a = canonicalize ''git@''
        \<and> h \<noteq> [] \<and> list_all (\<lambda>c. \<not> isSpace c \<and> c \<noteq> CHR '':'') h
        \<and> p \<noteq> [] \<and> list_all (\<lambda>c. \<not> isSpace c) p \<and> canonicalize b = canonicalize ''.git''"
      by blast
  next
    assume "\<exists>a h p b. t = a @ (h @ CHR '':'' # p) @ b \<and> canonicalize a = canonicalize ''git@''
        \<and> h \<noteq> [] \<and> list_all (\<lambda>c. \<not> isSpace c \<and> c \<noteq> CHR '':'') h
        \<and> p \<noteq> [] \<and> list_all (\<lambda>c. \<not> isSpace c) p \<and> canonicalize b = canonicalize ''.git''"
    then obtain a h p b where "t = a @ (h @ CHR '':'' # p) @ b"
      and r: "canonicalize a = canonicalize ''git@''" "h \<noteq> []"
      "list_all (\<lambda>c. \<not> isSpace c \<and> c \<noteq> CHR '':'') h" "p \<noteq> []"
      "list_all (\<lambda>c. \<not> isSpace c) p" "canonicalize b = canonicalize ''.git''"
      by blast
    then have "t = (a @ h @ [CHR '':'']) @ p @ b" by simp
    with r show "\<exists>pre p b. t = pre @ p @ b
        \<and> (\<exists>a h c. pre = a @ h @ c \<and> canonicalize a = canonicalize ''git@''
              \<and> (h \<noteq> [] \<and> list_all (\<lambda>c. \<not> isSpace c \<and> c \<noteq> CHR '':'') h) \<and> c = [CHR '':''])
        \<and> p \<noteq> [] \<and> list_all (\<lambda>c. \<not> isSpace c) p \<and> canonicalize b = canonicalize ''.git''"
      by blast
  qed
  also have "\<dots> \<longleftrightarrow> sshShorthand t" by (simp only: sshShorthand_iff)
  finally show ?thesis .
qed

lemma localPath_iff:
  "localPath t \<longleftrightarrow>
     (\<exists>m. (t = CHR ''/'' # m \<or> t = ''file://'' @ CHR ''/'' # m)
        \<and> m \<noteq> [] \<and> list_all (\<lambda>c. \<not> isSpace c) m)"
proof
  assume l: "localPath t"
  define p where "p = (if startsWith t ''file://'' then drop 7 t else t)"
  from l have "1 < length p" "hd p = CHR ''/''" "list_all (\<lambda>c. \<not> isSpace c) (tl p)"
    by (simp_all add: localPath_def Let_def p_def)
  then obtain m where p: "p = CHR ''/'' # m" and m: "m \<noteq> []" "list_all (\<lambda>c. \<not> isSpace c) m"
    by (cases p) auto
  show "\<exists>m. (t = CHR ''/'' # m \<or> t = ''file://'' @ CHR ''/'' # m)
        \<and> m \<noteq> [] \<and> list_all (\<lambda>c. \<not> isSpace c) m"
  proof (cases "startsWith t ''file://''")
    case True
    then obtain v where v: "t = ''file://'' @ v" unfolding startsWith_iff by blast
    then have "drop 7 t = v" by simp
    with True p have "v = CHR ''/'' # m" by (simp add: p_def)
    with v m show ?thesis by blast
  next
    case False
    with p have "t = CHR ''/'' # m" by (simp add: p_def)
    with m show ?thesis by blast
  qed
next
  assume "\<exists>m. (t = CHR ''/'' # m \<or> t = ''file://'' @ CHR ''/'' # m)
        \<and> m \<noteq> [] \<and> list_all (\<lambda>c. \<not> isSpace c) m"
  then obtain m where t: "t = CHR ''/'' # m \<or> t = ''file://'' @ CHR ''/'' # m"
    and m: "m \<noteq> []" "list_all (\<lambda>c. \<not> isSpace c) m" by blast
  from t show "localPath t"
  proof
    assume "t = CHR ''/'' # m"
    with m show ?thesis by (simp add: localPath_def startsWith_def)
  next
    assume "t = ''file://'' @ CHR ''/'' # m"
    with m show ?thesis by (simp add: localPath_def startsWith_def)
  qed
qed

lemma fullTest_filePattern: "fullTest filePattern t \<longleftrightarrow> localPath t"
proof -
  have "fullTest filePattern t \<longleftrightarrow>
     (\<exists>x y z. t = x @ y @ z \<and> (x = [] \<or> x = ''file://'') \<and> y = [CHR ''/'']
        \<and> (z \<noteq> [] \<and> list_all (\<lambda>c. \<not> isSpace c) z))"
    unfolding fullTest_iff filePattern_def in_lang_Seqs_three in_lang_Opt in_lang_Str in_lang_Chr
      notSpace_def in_lang_Plus_Atom ..
  also have "\<dots> \<longleftrightarrow> (\<exists>m. (t = CHR ''/'' # m \<or> t = ''file://'' @ CHR ''/'' # m)
        \<and> m \<noteq> [] \<and> list_all (\<lambda>c. \<not> isSpace c) m)"
  proof
    assume "\<exists>x y z. t = x @ y @ z \<and> (x = [] \<or> x = ''file://'') \<and> y = [CHR ''/'']
        \<and> (z \<noteq> [] \<and> list_all (\<lambda>c. \<not> isSpace c) z)"
    then obtain x z where "t = x @ [CHR ''/''] @ z" "x = [] \<or> x = ''file://''"
      and z: "z \<noteq> []" "list_all (\<lambda>c. \<not> isSpace c) z" by blast
    then have "t = CHR ''/'' # z \<or> t = ''file://'' @ CHR ''/'' # z" by auto
    with z show "\<exists>m. (t = CHR ''/'' # m \<or> t = ''file://'' @ CHR ''/'' # m)
        \<and> m \<noteq> [] \<and> list_all (\<lambda>c. \<not> isSpace c) m" by blast
  next
    assume "\<exists>m. (t = CHR ''/'' # m \<or> t = ''file://'' @ CHR ''/'' # m)
        \<and> m \<noteq> [] \<and> list_all (\<lambda>c. \<not> isSpace c) m"
    then obtain m where t: "t = CHR ''/'' # m \<or> t = ''file://'' @ CHR ''/'' # m"
      and m: "m \<noteq> []" "list_all (\<lambda>c. \<not> isSpace c) m" by blast
    from t have "t = [] @ [CHR ''/''] @ m \<or> t = ''file://'' @ [CHR ''/''] @ m" by simp
    with m show "\<exists>x y z. t = x @ y @ z \<and> (x = [] \<or> x = ''file://'') \<and> y = [CHR ''/'']
        \<and> (z \<noteq> [] \<and> list_all (\<lambda>c. \<not> isSpace c) z)" by blast
  qed
  also have "\<dots> \<longleftrightarrow> localPath t" by (simp only: localPath_iff)
  finally show ?thesis .
qed

text \<open>
  C8 (amended). \<open>validateRemoteUrl\<close> trims its input. A blank URL is invalid, with no
  suggestions. Otherwise the URL is accepted exactly when it has one of the documented
  forms (\<open>acceptedUrl\<close>); any other URL is invalid with the two example suggestions; an
  accepted \<open>git://\<close> URL is valid with the warning, any other accepted URL is valid with
  nothing attached.
\<close>

theorem validateRemoteUrl_cases:
  "validateRemoteUrl url =
     (if trim url = [] then invalid ''Remote URL cannot be empty''
      else if \<not> acceptedUrl (trim url)
      then \<lparr>valid = False, error = Some ''Invalid remote URL format'', warnings = None,
            suggestions = Some [''HTTPS: https://github.com/user/repo.git'',
              ''SSH: git@github.com:user/repo.git'']\<rparr>
      else if dotGitUrl ''git://'' (trim url)
      then \<lparr>valid = True, error = None,
            warnings = Some [''Git protocol is unencrypted. Consider using HTTPS or SSH.''],
            suggestions = None\<rparr>
      else \<lparr>valid = True, error = None, warnings = None, suggestions = None\<rparr>)"
  unfolding validateRemoteUrl_def Let_def empty_check acceptedUrl_def
    fullTest_httpsPattern fullTest_sshPattern1 fullTest_sshPattern2 fullTest_gitPattern
    fullTest_filePattern
  by (simp only: disj_assoc)

theorem validateRemoteUrl_cases_witness:
  "validateRemoteUrl ''  git://host/repo.git '' =
     \<lparr>valid = True, error = None,
      warnings = Some [''Git protocol is unencrypted. Consider using HTTPS or SSH.''],
      suggestions = None\<rparr>
   \<and> acceptedUrl ''git@github.com:user/repo.git''
   \<and> acceptedUrl ''HTTPS://GitHub.com/user/repo.GIT''
   \<and> acceptedUrl ''ssh://git@github.com/user/repo.git''
   \<and> acceptedUrl ''/srv/git/repo''
   \<and> acceptedUrl ''file:///srv/git/repo''
   \<and> \<not> acceptedUrl ''ftp://github.com/user/repo.git''"
proof -
  have t: "trim ''  git://host/repo.git '' = ''git://host/repo.git''"
    by code_simp
  have a: "''git://host/repo.git'' \<noteq> []" "acceptedUrl ''git://host/repo.git''"
    "dotGitUrl ''git://'' ''git://host/repo.git''"
    by code_simp+
  have b: "acceptedUrl ''git@github.com:user/repo.git''"
    "acceptedUrl ''HTTPS://GitHub.com/user/repo.GIT''"
    "acceptedUrl ''ssh://git@github.com/user/repo.git''"
    "acceptedUrl ''/srv/git/repo''"
    "acceptedUrl ''file:///srv/git/repo''"
    "\<not> acceptedUrl ''ftp://github.com/user/repo.git''"
    by code_simp+
  have "validateRemoteUrl ''  git://host/repo.git '' =
     \<lparr>valid = True, error = None,
      warnings = Some [''Git protocol is unencrypted. Consider using HTTPS or SSH.''],
      suggestions = None\<rparr>"
    unfolding validateRemoteUrl_cases[of "''  git://host/repo.git ''"] t
    using a by simp
  with b show ?thesis by blast
qed

text \<open>
  C8 (as stated) fails: the SSH shorthand is accepted for the user \<open>git\<close> only; the
  \<open>file://\<close> prefix is matched with regard to case; a \<open>git://\<close> URL that does not end in
  \<open>.git\<close> is invalid and carries no warning; and the empty string is invalid without
  suggestions.
\<close>

theorem validateRemoteUrl_rejections:
  "\<not> valid (validateRemoteUrl ''alice@example.com:repo.git'')
   \<and> \<not> valid (validateRemoteUrl ''FILE:///srv/repo'')
   \<and> \<not> valid (validateRemoteUrl ''git://host/repo'')
   \<and> warnings (validateRemoteUrl ''git://host/repo'') = None
   \<and> \<not> valid (validateRemoteUrl [])
   \<and> suggestions (validateRemoteUrl []) = None"
  by code_simp

end
